theory Spec2Isabelle
  imports Main "HOL-Library.Monad_Syntax" "HOL-Library.Word" "HOL-Library.AList"
begin

section \<open>Go library functions the logger calls\<close>

subsection \<open>strings.Split and strings.Join with a one-byte separator\<close>

text \<open>
  The registry only ever splits and joins on the separator \<open>"."\<close>, so the separator is
  one byte here. \<open>strings.Split\<close> cuts at every occurrence of the separator and returns
  the text after the last one as the final element: the result is never empty, and
  \<open>strings.Split("", ".")\<close> is the one-element slice holding the empty string.
\<close>

function strings_Split :: "string \<Rightarrow> char \<Rightarrow> string list" where
  "strings_Split s sep =
     (case dropWhile (\<lambda>c. c \<noteq> sep) s of
        [] \<Rightarrow> [s]
      | _ # rest \<Rightarrow> takeWhile (\<lambda>c. c \<noteq> sep) s # strings_Split rest sep)"
  by pat_completeness auto
termination
proof (relation "measure (\<lambda>(s, sep). length s)")
  show "wf (measure (\<lambda>(s, sep). length s))" by simp
next
  fix s :: string and sep :: char and x rest
  assume "dropWhile (\<lambda>c. c \<noteq> sep) s = x # rest"
  then have "length (x # rest) \<le> length s"
    using length_dropWhile_le [of "\<lambda>c. c \<noteq> sep" s] by simp
  then show "((rest, sep), (s, sep)) \<in> measure (\<lambda>(s, sep). length s)" by simp
qed

fun strings_Join :: "string list \<Rightarrow> char \<Rightarrow> string" where
  "strings_Join [] sep = []"
| "strings_Join [p] sep = p"
| "strings_Join (p # q # ps) sep = p @ sep # strings_Join (q # ps) sep"

subsection \<open>zapcore.Level\<close>

text \<open>
  \<open>zapcore.Level\<close> is an \<open>int8\<close> compared with \<open>>=\<close>; the logger never does arithmetic
  on it, so it is an integer here.
\<close>

type_synonym zapLevel = int

definition DebugLevel :: zapLevel where "DebugLevel = -1"
definition InfoLevel :: zapLevel where "InfoLevel = 0"
definition WarnLevel :: zapLevel where "WarnLevel = 1"
definition ErrorLevel :: zapLevel where "ErrorLevel = 2"
definition DPanicLevel :: zapLevel where "DPanicLevel = 3"
definition PanicLevel :: zapLevel where "PanicLevel = 4"
definition FatalLevel :: zapLevel where "FatalLevel = 5"

lemmas level_defs =
  DebugLevel_def InfoLevel_def WarnLevel_def ErrorLevel_def DPanicLevel_def
  PanicLevel_def FatalLevel_def

text \<open>
  \<open>Level.UnmarshalText\<close> belongs to zapcore, not to this repository: the functions below
  take it as the parameter \<open>um\<close>, which returns the level a text names, or \<open>None\<close> where
  zapcore returns an error and leaves the receiver as it was. \<open>zapcore_unmarshalText\<close>
  is the table of exact names zapcore matches, used where a concrete parser is needed.
\<close>

definition zapcore_unmarshalText :: "string \<Rightarrow> zapLevel option" where
  "zapcore_unmarshalText text =
     (if text = ''debug'' \<or> text = ''DEBUG'' then Some DebugLevel
      else if text = ''info'' \<or> text = ''INFO'' \<or> text = [] then Some InfoLevel
      else if text = ''warn'' \<or> text = ''WARN'' then Some WarnLevel
      else if text = ''error'' \<or> text = ''ERROR'' then Some ErrorLevel
      else if text = ''dpanic'' \<or> text = ''DPANIC'' then Some DPanicLevel
      else if text = ''panic'' \<or> text = ''PANIC'' then Some PanicLevel
      else if text = ''fatal'' \<or> text = ''FATAL'' then Some FatalLevel
      else None)"

section \<open>Severity parsing and the configuration\<close>

text \<open>
  \<open>ParseZapLevel\<close> starts from \<open>InfoLevel\<close>, parses only a non-empty text and discards
  the parser's error, so an unrecognised text leaves \<open>InfoLevel\<close>.
\<close>

definition ParseZapLevel :: "(string \<Rightarrow> zapLevel option) \<Rightarrow> string \<Rightarrow> zapLevel" where
  "ParseZapLevel um level =
     (let lvl = InfoLevel in
      if level \<noteq> [] then (case um level of Some parsed \<Rightarrow> parsed | None \<Rightarrow> lvl)
      else lvl)"

text \<open>
  Modelled from the spec: the declaration of the struct \<open>Config\<close> is not among the source
  files; its fields are the ones the source reads (\<open>conf.JSON\<close>, \<open>conf.Level\<close>,
  \<open>conf.ComponentLevels\<close>, \<open>conf.Sample\<close>, \<open>conf.ItemSampleSeconds\<close>,
  \<open>conf.ItemSampleInitial\<close>, \<open>conf.ItemSampleInterval\<close>, \<open>conf.SampleInterval\<close>), with the
  types the spec's configuration input gives them. The Go map \<open>ComponentLevels\<close> is only
  ever looked up, so it is a partial function. \<open>ItemSampleSeconds\<close> is multiplied into a
  64-bit \<open>time.Duration\<close>, so it is a 64-bit word.
\<close>

record Config =
  JSON :: bool
  Level :: string
  ComponentLevels :: "string \<rightharpoonup> string"
  Sample :: bool
  ItemSampleSeconds :: "64 word"
  ItemSampleInitial :: int
  ItemSampleInterval :: int
  SampleInterval :: int

subsection \<open>The search up the component hierarchy\<close>

text \<open>
  \<open>setEffectiveLevel\<close> and \<open>onConfigUpdate\<close> contain the same loop: while \<open>parts\<close> is not
  empty, join it with dots, look the joined path up in the configured levels, stop at a
  hit, otherwise drop the last part. \<open>confSearch\<close> is that loop; it returns the configured
  text of the hit, or \<open>None\<close> when the loop runs out of parts.
\<close>

function confSearch :: "(string \<rightharpoonup> string) \<Rightarrow> string list \<Rightarrow> string option" where
  "confSearch componentLevels parts =
     (if length parts > 0 then
        (let search = strings_Join parts (CHR ''.'') in
         case componentLevels search of
           Some compLevel \<Rightarrow> Some compLevel
         | None \<Rightarrow> confSearch componentLevels (take (length parts - 1) parts))
      else None)"
  by pat_completeness auto
termination
  by (relation "measure (\<lambda>(componentLevels, parts). length parts)") auto

section \<open>The store\<close>

text \<open>
  The logger shares mutable objects through pointers: \<open>zap.AtomicLevel\<close> cells,
  \<open>*zap.SugaredLogger\<close> sinks, \<open>*ZapLogger\<close> handles and the \<open>*sharedConfig\<close> registry.
  Each kind lives in a list of the state; a pointer is an index into its list, \<open>new\<close>
  appends, and two pointers are the same pointer when they are the same index. An index
  outside its list stands for Go's \<open>nil\<close>: dereferencing it panics, which is the result
  \<open>None\<close>. The mutex \<open>lc\<close> is left out: calls run one after the other here.
\<close>

type_synonym addr = nat

definition load :: "'a list \<Rightarrow> addr \<Rightarrow> 'a option" where
  "load xs a = (if a < length xs then Some (xs ! a) else None)"

subsection \<open>What the logger asks of zap\<close>

text \<open>
  zap is the backend, outside this repository. A sink is described by the configuration
  it was built from and by the calls the logger has made to derive it, oldest first; every
  derivation (\<open>With\<close>, \<open>Named\<close>, \<open>WithOptions\<close>) returns a new \<open>*SugaredLogger\<close>. A write
  dispatched to a sink (\<open>Debugw\<close>, \<open>Infow\<close>, \<open>Warnw\<close>, \<open>Errorw\<close> of \<open>SugaredLogger\<close>) is
  recorded with the sink's description, the severity, the message and the pairs; what
  zap does with it afterwards (encoding, sampling, output) is zap's.
\<close>

datatype iface = StringV string | ErrorV string | BoolV bool | IntV int

datatype EncoderConfig =
  NewDevelopmentEncoderConfig | NewProductionEncoderConfig_CapitalColorLevelEncoder

record zapConfig =
  zc_Level :: zapLevel
  Development :: bool
  Encoding :: string
  EncoderConfig :: EncoderConfig
  OutputPaths :: "string list"
  ErrorOutputPaths :: "string list"

text \<open>\<open>time.Duration\<close> counts nanoseconds in an \<open>int64\<close>.\<close>

definition Second :: "64 word" where
  "Second = 1000000000"

datatype zapOption =
  AddCallerSkip int
| WrapCore_NewSamplerWithOptions "64 word" int int

datatype zapCall = With "iface list" | Named string | WithOptions zapOption

record SugaredLogger =
  built :: zapConfig
  calls :: "zapCall list"

record entry =
  e_sink :: SugaredLogger
  e_level :: zapLevel
  e_msg :: string
  e_keysAndValues :: "iface list"

subsection \<open>The logger's own structs\<close>

record ZapLogger =
  zap :: addr
  unsampled :: addr
  component :: string
  sharedConfig :: addr
  level :: addr
  SampleDuration :: "64 word"
  SampleInitial :: int
  SampleInterval :: int

text \<open>
  \<open>componentLevels\<close> is a Go map that \<open>onConfigUpdate\<close> ranges over, so it is an association
  list: \<open>map_of\<close> looks a key up, \<open>AList.update\<close> assigns, and \<open>range\<close> visits the list in
  order. Go leaves the order of \<open>range\<close> open; nothing below depends on it.
\<close>

record sharedConfig =
  level :: addr
  componentLevels :: "(string \<times> addr) list"
  config :: Config

record state =
  atomicLevels :: "zapLevel list"
  sugared :: "SugaredLogger list"
  zapLoggers :: "ZapLogger list"
  sharedConfigs :: "sharedConfig list"
  written :: "entry list"

definition NewAtomicLevelAt :: "state \<Rightarrow> zapLevel \<Rightarrow> state \<times> addr" where
  "NewAtomicLevelAt s l =
     (s\<lparr>atomicLevels := atomicLevels s @ [l]\<rparr>, length (atomicLevels s))"

definition AtomicLevel_Level :: "state \<Rightarrow> addr \<Rightarrow> zapLevel option" where
  "AtomicLevel_Level s a = load (atomicLevels s) a"

definition AtomicLevel_SetLevel :: "state \<Rightarrow> addr \<Rightarrow> zapLevel \<Rightarrow> state option" where
  "AtomicLevel_SetLevel s a l =
     (if a < length (atomicLevels s)
      then Some (s\<lparr>atomicLevels := (atomicLevels s)[a := l]\<rparr>)
      else None)"

definition zap_Sugar :: "state \<Rightarrow> SugaredLogger \<Rightarrow> state \<times> addr" where
  "zap_Sugar s d = (s\<lparr>sugared := sugared s @ [d]\<rparr>, length (sugared s))"

definition zap_derive :: "state \<Rightarrow> addr \<Rightarrow> zapCall \<Rightarrow> (state \<times> addr) option" where
  "zap_derive s p c =
     do {
       d \<leftarrow> load (sugared s) p;
       Some (zap_Sugar s (d\<lparr>calls := calls d @ [c]\<rparr>))
     }"

definition zap_With :: "state \<Rightarrow> addr \<Rightarrow> iface list \<Rightarrow> (state \<times> addr) option" where
  "zap_With s p keysAndValues = zap_derive s p (With keysAndValues)"

definition zap_Named :: "state \<Rightarrow> addr \<Rightarrow> string \<Rightarrow> (state \<times> addr) option" where
  "zap_Named s p name = zap_derive s p (Named name)"

definition zap_WithOptions :: "state \<Rightarrow> addr \<Rightarrow> zapOption \<Rightarrow> (state \<times> addr) option" where
  "zap_WithOptions s p opt = zap_derive s p (WithOptions opt)"

definition zap_log ::
  "state \<Rightarrow> addr \<Rightarrow> zapLevel \<Rightarrow> string \<Rightarrow> iface list \<Rightarrow> state option" where
  "zap_log s p lvl msg keysAndValues =
     do {
       d \<leftarrow> load (sugared s) p;
       Some (s\<lparr>written := written s @
         [\<lparr>e_sink = d, e_level = lvl, e_msg = msg, e_keysAndValues = keysAndValues\<rparr>]\<rparr>)
     }"

definition new_ZapLogger :: "state \<Rightarrow> ZapLogger \<Rightarrow> state \<times> addr" where
  "new_ZapLogger s z = (s\<lparr>zapLoggers := zapLoggers s @ [z]\<rparr>, length (zapLoggers s))"

section \<open>The level registry\<close>

definition newSharedConfig ::
  "(string \<Rightarrow> zapLevel option) \<Rightarrow> state \<Rightarrow> Config \<Rightarrow> state \<times> addr" where
  "newSharedConfig um s conf =
     (let (s1, lv) = NewAtomicLevelAt s (ParseZapLevel um (Level conf)) in
      (s1\<lparr>sharedConfigs := sharedConfigs s1 @
         [\<lparr>sharedConfig.level = lv, componentLevels = [], config = conf\<rparr>]\<rparr>,
       length (sharedConfigs s1)))"

text \<open>
  \<open>setEffectiveLevel\<close> returns the cached cell of a component, or makes a cell at the
  registry's current level, caches it and then searches the configuration; a hit sets the
  new cell before it is returned.
\<close>

definition setEffectiveLevel ::
  "(string \<Rightarrow> zapLevel option) \<Rightarrow> state \<Rightarrow> addr \<Rightarrow> string \<Rightarrow> (state \<times> addr) option" where
  "setEffectiveLevel um s c cname =
     do {
       sc \<leftarrow> load (sharedConfigs s) c;
       case map_of (componentLevels sc) cname of
         Some compLevel \<Rightarrow> Some (s, compLevel)
       | None \<Rightarrow>
           do {
             cur \<leftarrow> AtomicLevel_Level s (sharedConfig.level sc);
             (s1, atomicLevel) \<leftarrow> Some (NewAtomicLevelAt s cur);
             s2 \<leftarrow> Some (s1\<lparr>sharedConfigs := (sharedConfigs s1)
                     [c := sc\<lparr>componentLevels :=
                        AList.update cname atomicLevel (componentLevels sc)\<rparr>]\<rparr>);
             parts \<leftarrow> Some (strings_Split cname (CHR ''.''));
             case confSearch (ComponentLevels (config sc)) parts of
               Some compLevel \<Rightarrow>
                 do {
                   s3 \<leftarrow> AtomicLevel_SetLevel s2 atomicLevel (ParseZapLevel um compLevel);
                   Some (s3, atomicLevel)
                 }
             | None \<Rightarrow> Some (s2, atomicLevel)
           }
     }"

text \<open>
  The body of the \<open>range\<close> loop of \<open>onConfigUpdate\<close>, over the entries still to visit:
  \<open>lv\<close> is the registry's cell \<open>cfg.level\<close>, read again for every component.
\<close>

fun updateLevels ::
  "(string \<Rightarrow> zapLevel option) \<Rightarrow> state \<Rightarrow> addr \<Rightarrow> Config \<Rightarrow> (string \<times> addr) list
     \<Rightarrow> state option" where
  "updateLevels um s lv conf [] = Some s"
| "updateLevels um s lv conf ((cname, atomicLevel) # rest) =
     do {
       cur \<leftarrow> AtomicLevel_Level s lv;
       parts \<leftarrow> Some (strings_Split cname (CHR ''.''));
       updateLevel \<leftarrow> Some (case confSearch (ComponentLevels conf) parts of
                              Some compLevel \<Rightarrow> ParseZapLevel um compLevel
                            | None \<Rightarrow> cur);
       s1 \<leftarrow> AtomicLevel_SetLevel s atomicLevel updateLevel;
       updateLevels um s1 lv conf rest
     }"

text \<open>\<open>onConfigUpdate\<close> always returns the error \<open>nil\<close>; the result here is the state.\<close>

definition onConfigUpdate ::
  "(string \<Rightarrow> zapLevel option) \<Rightarrow> state \<Rightarrow> addr \<Rightarrow> Config \<Rightarrow> state option" where
  "onConfigUpdate um s cfg conf =
     do {
       sc \<leftarrow> load (sharedConfigs s) cfg;
       s1 \<leftarrow> AtomicLevel_SetLevel s (sharedConfig.level sc) (ParseZapLevel um (Level conf));
       s2 \<leftarrow> Some (s1\<lparr>sharedConfigs := (sharedConfigs s1)[cfg := sc\<lparr>config := conf\<rparr>]\<rparr>);
       updateLevels um s2 (sharedConfig.level sc) conf (componentLevels sc)
     }"

section \<open>ZapLogger\<close>

definition isEnabled :: "state \<Rightarrow> addr \<Rightarrow> zapLevel \<Rightarrow> bool option" where
  "isEnabled s l lvl =
     do {
       z \<leftarrow> load (zapLoggers s) l;
       cur \<leftarrow> AtomicLevel_Level s (ZapLogger.level z);
       Some (lvl \<ge> cur)
     }"

definition Debugw :: "state \<Rightarrow> addr \<Rightarrow> string \<Rightarrow> iface list \<Rightarrow> state option" where
  "Debugw s l msg keysAndValues =
     do {
       enabled \<leftarrow> isEnabled s l DebugLevel;
       if \<not> enabled then Some s
       else do {
         z \<leftarrow> load (zapLoggers s) l;
         zap_log s (zap z) DebugLevel msg keysAndValues
       }
     }"

definition Infow :: "state \<Rightarrow> addr \<Rightarrow> string \<Rightarrow> iface list \<Rightarrow> state option" where
  "Infow s l msg keysAndValues =
     do {
       enabled \<leftarrow> isEnabled s l InfoLevel;
       if \<not> enabled then Some s
       else do {
         z \<leftarrow> load (zapLoggers s) l;
         zap_log s (zap z) InfoLevel msg keysAndValues
       }
     }"

text \<open>The error argument is \<open>None\<close> for Go's \<open>nil\<close>.\<close>

definition Warnw ::
  "state \<Rightarrow> addr \<Rightarrow> string \<Rightarrow> string option \<Rightarrow> iface list \<Rightarrow> state option" where
  "Warnw s l msg err keysAndValues =
     do {
       enabled \<leftarrow> isEnabled s l WarnLevel;
       if \<not> enabled then Some s
       else do {
         z \<leftarrow> load (zapLoggers s) l;
         zap_log s (zap z) WarnLevel msg
           (case err of
              Some e \<Rightarrow> keysAndValues @ [StringV ''error'', ErrorV e]
            | None \<Rightarrow> keysAndValues)
       }
     }"

definition Errorw ::
  "state \<Rightarrow> addr \<Rightarrow> string \<Rightarrow> string option \<Rightarrow> iface list \<Rightarrow> state option" where
  "Errorw s l msg err keysAndValues =
     do {
       enabled \<leftarrow> isEnabled s l ErrorLevel;
       if \<not> enabled then Some s
       else do {
         z \<leftarrow> load (zapLoggers s) l;
         zap_log s (zap z) ErrorLevel msg
           (case err of
              Some e \<Rightarrow> keysAndValues @ [StringV ''error'', ErrorV e]
            | None \<Rightarrow> keysAndValues)
       }
     }"

text \<open>
  \<open>WithValues\<close>, \<open>WithName\<close> and \<open>WithCallDepth\<close> copy the receiver, derive the copy's
  sampled sink from the receiver's, and give it as unsampled sink that same new sink when
  the receiver's two sinks are one pointer, or else a sink derived from the receiver's
  unsampled sink. The copy is returned by address, so it is a new handle.
\<close>

definition WithValues :: "state \<Rightarrow> addr \<Rightarrow> iface list \<Rightarrow> (state \<times> addr) option" where
  "WithValues s l keysAndValues =
     do {
       dup \<leftarrow> load (zapLoggers s) l;
       (s1, z) \<leftarrow> zap_With s (zap dup) keysAndValues;
       (s2, u) \<leftarrow> (if unsampled dup = zap dup then Some (s1, z)
                   else zap_With s1 (unsampled dup) keysAndValues);
       Some (new_ZapLogger s2 (dup\<lparr>zap := z, unsampled := u\<rparr>))
     }"

definition WithName :: "state \<Rightarrow> addr \<Rightarrow> string \<Rightarrow> (state \<times> addr) option" where
  "WithName s l name =
     do {
       dup \<leftarrow> load (zapLoggers s) l;
       (s1, z) \<leftarrow> zap_Named s (zap dup) name;
       (s2, u) \<leftarrow> (if unsampled dup = zap dup then Some (s1, z)
                   else zap_Named s1 (unsampled dup) name);
       Some (new_ZapLogger s2 (dup\<lparr>zap := z, unsampled := u\<rparr>))
     }"

definition WithCallDepth :: "state \<Rightarrow> addr \<Rightarrow> int \<Rightarrow> (state \<times> addr) option" where
  "WithCallDepth s l depth =
     do {
       dup \<leftarrow> load (zapLoggers s) l;
       (s1, z) \<leftarrow> zap_WithOptions s (zap dup) (AddCallerSkip depth);
       (s2, u) \<leftarrow> (if unsampled dup = zap dup then Some (s1, z)
                   else zap_WithOptions s1 (unsampled dup) (AddCallerSkip depth));
       Some (new_ZapLogger s2 (dup\<lparr>zap := z, unsampled := u\<rparr>))
     }"

definition WithComponent ::
  "(string \<Rightarrow> zapLevel option) \<Rightarrow> state \<Rightarrow> addr \<Rightarrow> string \<Rightarrow> (state \<times> addr) option" where
  "WithComponent um s l cname =
     do {
       (s1, d) \<leftarrow> WithName s l cname;
       dup \<leftarrow> load (zapLoggers s1) d;
       path \<leftarrow> Some (if component dup = [] then cname else component dup @ ''.'' @ cname);
       s2 \<leftarrow> Some (s1\<lparr>zapLoggers := (zapLoggers s1)[d := dup\<lparr>component := path\<rparr>]\<rparr>);
       (s3, cell) \<leftarrow> setEffectiveLevel um s2 (sharedConfig dup) path;
       dup3 \<leftarrow> load (zapLoggers s3) d;
       Some (s3\<lparr>zapLoggers := (zapLoggers s3)[d := dup3\<lparr>ZapLogger.level := cell\<rparr>]\<rparr>, d)
     }"

definition WithItemSampler :: "state \<Rightarrow> addr \<Rightarrow> (state \<times> addr) option" where
  "WithItemSampler s l =
     do {
       z \<leftarrow> load (zapLoggers s) l;
       if SampleDuration z = 0 then Some (s, l)
       else do {
         (s1, p) \<leftarrow> zap_WithOptions s (unsampled z)
           (WrapCore_NewSamplerWithOptions
              (SampleDuration z) (SampleInitial z) (ZapLogger.SampleInterval z));
         Some (new_ZapLogger s1 (z\<lparr>zap := p\<rparr>))
       }
     }"

definition WithoutSampler :: "state \<Rightarrow> addr \<Rightarrow> (state \<times> addr) option" where
  "WithoutSampler s l =
     do {
       z \<leftarrow> load (zapLoggers s) l;
       if unsampled z = zap z then Some (s, l)
       else Some (new_ZapLogger s (z\<lparr>zap := unsampled z\<rparr>))
     }"

section \<open>Construction and the process-wide singletons\<close>

text \<open>
  \<open>zc.Build()\<close> is zap's: the parameter \<open>Build\<close> returns its error, \<open>None\<close> for \<open>nil\<close>.
  \<open>NewZapLogger\<close> returns the state and either the error or the new handle. The handle is
  entered into the store where it is complete; before \<open>Build\<close> succeeds nothing points to
  it.
\<close>

definition NewZapLogger ::
  "(string \<Rightarrow> zapLevel option) \<Rightarrow> (zapConfig \<Rightarrow> string option) \<Rightarrow> state \<Rightarrow> Config
     \<Rightarrow> state \<times> (string + addr)" where
  "NewZapLogger um Build s conf =
     (let (s1, sc) = newSharedConfig um s conf;
          zc = \<lparr>zc_Level = DebugLevel, Development = False, Encoding = ''console'',
                EncoderConfig = NewDevelopmentEncoderConfig,
                OutputPaths = [''stderr''], ErrorOutputPaths = [''stderr'']\<rparr>;
          zc = (if JSON conf
                then zc\<lparr>Encoding := ''json'',
                        EncoderConfig := NewProductionEncoderConfig_CapitalColorLevelEncoder\<rparr>
                else zc)
      in case Build zc of
           Some err \<Rightarrow> (s1, Inl err)
         | None \<Rightarrow>
             (let (s2, u) = zap_Sugar s1 \<lparr>built = zc, calls = []\<rparr>;
                  (s3, z) =
                    (if Sample conf then
                       (let Initial = ItemSampleInitial conf;
                            Thereafter = Config.SampleInterval conf;
                            Initial = (if Initial = 0 then 20 else Initial);
                            Thereafter = (if Thereafter = 0 then 100 else Thereafter)
                        in zap_Sugar s2
                             \<lparr>built = zc,
                              calls = [WithOptions
                                (WrapCore_NewSamplerWithOptions Second Initial Thereafter)]\<rparr>)
                     else (s2, u));
                  (s4, l) = new_ZapLogger s3
                    \<lparr>zap = z, unsampled = u, component = [], sharedConfig = sc,
                     level = sharedConfig.level (sharedConfigs s1 ! sc),
                     SampleDuration = ItemSampleSeconds conf * Second,
                     SampleInitial = ItemSampleInitial conf,
                     SampleInterval = ItemSampleInterval conf\<rparr>
              in (s4, Inr l)))"

text \<open>
  The interface \<open>Logger\<close> has two implementations: \<open>LogRLogger\<close>, a \<open>logr.Logger\<close> value,
  and \<open>*ZapLogger\<close>. logr is outside this repository: its logger is a type parameter, and
  the record \<open>logr\<close> holds the functions of logr that \<open>SetLogger\<close> reaches.
\<close>

datatype 'r Logger = LogRLogger 'r | ZapLoggerRef addr

record 'r logr =
  logr_Discard :: 'r
  logr_sink_is_nil :: "'r \<Rightarrow> bool"
  logr_WithCallDepth :: "'r \<Rightarrow> int \<Rightarrow> 'r"
  logr_WithName :: "'r \<Rightarrow> string \<Rightarrow> 'r"

definition toLogr :: "'r logr \<Rightarrow> 'r \<Rightarrow> 'r" where
  "toLogr api l = (if logr_sink_is_nil api l then logr_Discard api else l)"

definition Logger_WithCallDepth ::
  "'r logr \<Rightarrow> state \<Rightarrow> 'r Logger \<Rightarrow> int \<Rightarrow> (state \<times> 'r Logger) option" where
  "Logger_WithCallDepth api s lg depth =
     (case lg of
        LogRLogger l \<Rightarrow> Some (s, LogRLogger (logr_WithCallDepth api (toLogr api l) depth))
      | ZapLoggerRef l \<Rightarrow>
          do { (s1, d) \<leftarrow> WithCallDepth s l depth; Some (s1, ZapLoggerRef d) })"

definition Logger_WithName ::
  "'r logr \<Rightarrow> state \<Rightarrow> 'r Logger \<Rightarrow> string \<Rightarrow> (state \<times> 'r Logger) option" where
  "Logger_WithName api s lg name =
     (case lg of
        LogRLogger l \<Rightarrow> Some (s, LogRLogger (logr_WithName api (toLogr api l) name))
      | ZapLoggerRef l \<Rightarrow>
          do { (s1, d) \<leftarrow> WithName s l name; Some (s1, ZapLoggerRef d) })"

record 'r globals =
  defaultLogger :: "'r Logger"
  pkgLogger :: "'r Logger"

definition initial_globals :: "'r logr \<Rightarrow> 'r globals" where
  "initial_globals api =
     \<lparr>defaultLogger = LogRLogger (logr_Discard api),
      pkgLogger = LogRLogger (logr_Discard api)\<rparr>"

definition GetLogger :: "'r globals \<Rightarrow> 'r Logger" where
  "GetLogger g = defaultLogger g"

definition SetLogger ::
  "'r logr \<Rightarrow> state \<times> 'r globals \<Rightarrow> 'r Logger \<Rightarrow> string \<Rightarrow> (state \<times> 'r globals) option" where
  "SetLogger api sg l name =
     (case sg of (s, g) \<Rightarrow>
      do {
        (s1, d1) \<leftarrow> Logger_WithCallDepth api s l 1;
        (s2, d) \<leftarrow> Logger_WithName api s1 d1 name;
        g1 \<leftarrow> Some (g\<lparr>defaultLogger := d\<rparr>);
        (s3, p2) \<leftarrow> Logger_WithCallDepth api s2 l 2;
        (s4, p) \<leftarrow> Logger_WithName api s3 p2 name;
        Some (s4, g1\<lparr>pkgLogger := p\<rparr>)
      })"

definition InitLogConfig ::
  "(string \<Rightarrow> zapLevel option) \<Rightarrow> (zapConfig \<Rightarrow> string option) \<Rightarrow> 'r logr
     \<Rightarrow> state \<times> 'r globals \<Rightarrow> Config \<Rightarrow> string \<Rightarrow> (state \<times> 'r globals) option" where
  "InitLogConfig um Build api sg conf system =
     (case sg of (s, g) \<Rightarrow>
      (case NewZapLogger um Build s conf of
         (s1, Inr l) \<Rightarrow> SetLogger api (s1, g) (ZapLoggerRef l) system
       | (s1, Inl err) \<Rightarrow> Some (s1, g)))"

section \<open>The specification's reading of the hierarchy\<close>

text \<open>
  The specification describes the search on the dotted path itself: start at the full
  path, then strip the last dot-segment and retry. \<open>spec_stripLastSegment\<close> cuts a path
  at its last dot (\<open>None\<close> when it has no dot), \<open>spec_ancestors\<close> lists the path and what
  repeated stripping leaves, most specific first, and \<open>spec_configured\<close> is the configured
  text of the first of them that the configuration mentions. \<open>spec_resolveLevel\<close> is the
  severity the specification gives a component: the parsed text of that entry, or the
  default.
\<close>

definition spec_stripLastSegment :: "string \<Rightarrow> string option" where
  "spec_stripLastSegment p =
     (if CHR ''.'' \<in> set p
      then Some (rev (tl (dropWhile (\<lambda>c. c \<noteq> CHR ''.'') (rev p))))
      else None)"

function spec_ancestors :: "string \<Rightarrow> string list" where
  "spec_ancestors p =
     p # (case spec_stripLastSegment p of None \<Rightarrow> [] | Some q \<Rightarrow> spec_ancestors q)"
  by pat_completeness auto
termination
proof (relation "measure length")
  show "wf (measure length)" by simp
next
  fix p q :: string
  assume strip: "spec_stripLastSegment p = Some q"
  then have dot: "CHR ''.'' \<in> set p"
    by (auto simp: spec_stripLastSegment_def split: if_splits)
  then obtain x r where xr: "dropWhile (\<lambda>c. c \<noteq> CHR ''.'') (rev p) = x # r"
    by (cases "dropWhile (\<lambda>c. c \<noteq> CHR ''.'') (rev p)") auto
  have "length (dropWhile (\<lambda>c. c \<noteq> CHR ''.'') (rev p)) \<le> length (rev p)"
    by (rule length_dropWhile_le)
  with xr have "length r < length p" by simp
  moreover from strip dot xr have "q = rev r"
    by (simp add: spec_stripLastSegment_def)
  ultimately show "(q, p) \<in> measure length" by simp
qed

definition spec_configured :: "(string \<rightharpoonup> string) \<Rightarrow> string \<Rightarrow> string option" where
  "spec_configured configured p =
     (case find (\<lambda>q. configured q \<noteq> None) (spec_ancestors p) of
        None \<Rightarrow> None
      | Some q \<Rightarrow> configured q)"

definition spec_resolveLevel ::
  "(string \<Rightarrow> zapLevel option) \<Rightarrow> Config \<Rightarrow> zapLevel \<Rightarrow> string \<Rightarrow> zapLevel" where
  "spec_resolveLevel um conf dflt p =
     (case spec_configured (ComponentLevels conf) p of
        Some text \<Rightarrow> ParseZapLevel um text
      | None \<Rightarrow> dflt)"

section \<open>Concrete inputs\<close>

text \<open>Inputs on which the theorems below are run.\<close>

definition empty_state :: state where
  "empty_state =
     \<lparr>atomicLevels = [], sugared = [], zapLoggers = [], sharedConfigs = [], written = []\<rparr>"

definition Config_ab_warn :: Config where
  "Config_ab_warn =
     \<lparr>JSON = False, Level = ''debug'', ComponentLevels = [''a.b'' \<mapsto> ''warn''],
      Sample = False, ItemSampleSeconds = 0, ItemSampleInitial = 0,
      ItemSampleInterval = 0, SampleInterval = 0\<rparr>"

text \<open>
  The registry's invariant: its level cell exists, and the cached cells exist, are
  pairwise different and are not the registry's level cell. \<open>newSharedConfig\<close>
  establishes it and \<open>setEffectiveLevel\<close> keeps it, since every cached cell comes from
  \<open>zap.NewAtomicLevelAt\<close>.
\<close>

definition registry_ok :: "state \<Rightarrow> sharedConfig \<Rightarrow> bool" where
  "registry_ok s sc \<longleftrightarrow>
     sharedConfig.level sc < length (atomicLevels s) \<and>
     distinct (map fst (componentLevels sc)) \<and>
     distinct (map snd (componentLevels sc)) \<and>
     (\<forall>a \<in> snd ` set (componentLevels sc).
        a < length (atomicLevels s) \<and> a \<noteq> sharedConfig.level sc)"

definition Config_info :: Config where
  "Config_info =
     \<lparr>JSON = False, Level = ''info'', ComponentLevels = Map.empty,
      Sample = False, ItemSampleSeconds = 0, ItemSampleInitial = 0,
      ItemSampleInterval = 0, SampleInterval = 0\<rparr>"

definition Config_svc_error :: Config where
  "Config_svc_error =
     \<lparr>JSON = False, Level = ''info'', ComponentLevels = [''svc'' \<mapsto> ''error''],
      Sample = False, ItemSampleSeconds = 0, ItemSampleInitial = 0,
      ItemSampleInterval = 0, SampleInterval = 0\<rparr>"

definition state_svc_a :: state where
  "state_svc_a =
     \<lparr>atomicLevels = [0, 0], sugared = [], zapLoggers = [],
      sharedConfigs =
        [\<lparr>sharedConfig.level = 0, componentLevels = [(''svc.a'', 1)], config = Config_info\<rparr>],
      written = []\<rparr>"

text \<open>
  A handle is live when it and everything it points to is in the store. Handles made by
  \<open>NewZapLogger\<close> are live, and the derivations return live handles from live ones.
\<close>

definition live :: "state \<Rightarrow> addr \<Rightarrow> bool" where
  "live s l \<longleftrightarrow>
     l < length (zapLoggers s) \<and>
     zap (zapLoggers s ! l) < length (sugared s) \<and>
     unsampled (zapLoggers s ! l) < length (sugared s) \<and>
     ZapLogger.level (zapLoggers s ! l) < length (atomicLevels s) \<and>
     sharedConfig (zapLoggers s ! l) < length (sharedConfigs s)"

text \<open>
  The configuration of \<open>cmd/main.go\<close>, and one with sampling on and the level
  \<open>"warn"\<close>; a \<open>Build\<close> that succeeds and one that fails; the two zap configurations
  \<open>NewZapLogger\<close> builds; and the states \<open>NewZapLogger\<close> makes of the empty state.
\<close>

definition Config_main :: Config where
  "Config_main =
     \<lparr>JSON = False, Level = ''debug'', ComponentLevels = Map.empty,
      Sample = False, ItemSampleSeconds = 0, ItemSampleInitial = 0,
      ItemSampleInterval = 0, SampleInterval = 0\<rparr>"

definition Config_warn_sampled :: Config where
  "Config_warn_sampled =
     \<lparr>JSON = True, Level = ''warn'', ComponentLevels = Map.empty,
      Sample = True, ItemSampleSeconds = 1, ItemSampleInitial = 0,
      ItemSampleInterval = 5, SampleInterval = 0\<rparr>"

definition Build_ok :: "zapConfig \<Rightarrow> string option" where
  "Build_ok zc = None"

definition Build_fails :: "zapConfig \<Rightarrow> string option" where
  "Build_fails zc = Some ''no encoder registered''"

definition zc_console :: zapConfig where
  "zc_console =
     \<lparr>zc_Level = DebugLevel, Development = False, Encoding = ''console'',
      EncoderConfig = NewDevelopmentEncoderConfig,
      OutputPaths = [''stderr''], ErrorOutputPaths = [''stderr'']\<rparr>"

definition zc_json :: zapConfig where
  "zc_json =
     \<lparr>zc_Level = DebugLevel, Development = False, Encoding = ''json'',
      EncoderConfig = NewProductionEncoderConfig_CapitalColorLevelEncoder,
      OutputPaths = [''stderr''], ErrorOutputPaths = [''stderr'']\<rparr>"

definition state_main :: state where
  "state_main =
     \<lparr>atomicLevels = [DebugLevel],
      sugared = [\<lparr>built = zc_console, calls = []\<rparr>],
      zapLoggers =
        [\<lparr>zap = 0, unsampled = 0, component = [], sharedConfig = 0, level = 0,
          SampleDuration = 0, SampleInitial = 0, SampleInterval = 0\<rparr>],
      sharedConfigs =
        [\<lparr>sharedConfig.level = 0, componentLevels = [], config = Config_main\<rparr>],
      written = []\<rparr>"

definition state_warn_sampled :: state where
  "state_warn_sampled =
     \<lparr>atomicLevels = [WarnLevel],
      sugared =
        [\<lparr>built = zc_json, calls = []\<rparr>,
         \<lparr>built = zc_json,
          calls = [WithOptions (WrapCore_NewSamplerWithOptions Second 20 100)]\<rparr>],
      zapLoggers =
        [\<lparr>zap = 1, unsampled = 0, component = [], sharedConfig = 0, level = 0,
          SampleDuration = Second, SampleInitial = 0, SampleInterval = 5\<rparr>],
      sharedConfigs =
        [\<lparr>sharedConfig.level = 0, componentLevels = [], config = Config_warn_sampled\<rparr>],
      written = []\<rparr>"

text \<open>
  The caller skip of a sink is the sum of the \<open>zap.AddCallerSkip\<close> options among the calls
  that derived it. \<open>installed_callerSkips\<close> reads it off the active sinks of the two
  singletons that \<open>SetLogger\<close> installs. \<open>logr_unit\<close> is a logr whose logger carries no
  information.
\<close>

definition callerSkip :: "SugaredLogger \<Rightarrow> int" where
  "callerSkip d =
     sum_list (map (\<lambda>c. case c of WithOptions (AddCallerSkip n) \<Rightarrow> n | _ \<Rightarrow> 0) (calls d))"

definition Logger_callerSkip :: "state \<Rightarrow> 'r Logger \<Rightarrow> int option" where
  "Logger_callerSkip s lg =
     (case lg of
        LogRLogger r \<Rightarrow> None
      | ZapLoggerRef l \<Rightarrow>
          do {
            z \<leftarrow> load (zapLoggers s) l;
            d \<leftarrow> load (sugared s) (zap z);
            Some (callerSkip d)
          })"

definition installed_callerSkips ::
  "'r logr \<Rightarrow> state \<times> 'r globals \<Rightarrow> 'r Logger \<Rightarrow> string \<Rightarrow> (int option \<times> int option) option" where
  "installed_callerSkips api sg l name =
     map_option
       (\<lambda>(s', g'). (Logger_callerSkip s' (defaultLogger g'), Logger_callerSkip s' (pkgLogger g')))
       (SetLogger api sg l name)"

definition logr_unit :: "unit logr" where
  "logr_unit =
     \<lparr>logr_Discard = (), logr_sink_is_nil = (\<lambda>r. True),
      logr_WithCallDepth = (\<lambda>r depth. r), logr_WithName = (\<lambda>r name. r)\<rparr>"

text \<open>
  \<open>extends s s'\<close>: the later state has the handles and sinks of the earlier one where they
  were, possibly more after them, and the same cells, registries and writes.
\<close>

definition extends :: "state \<Rightarrow> state \<Rightarrow> bool" where
  "extends s s' \<longleftrightarrow>
     (\<exists>zs ds. zapLoggers s' = zapLoggers s @ zs \<and> sugared s' = sugared s @ ds) \<and>
     atomicLevels s' = atomicLevels s \<and> sharedConfigs s' = sharedConfigs s \<and>
     written s' = written s"

text \<open>
  The three derivations have one shape; \<open>mirror\<close> is that shape with the zap call as a
  parameter, and each derivation is \<open>mirror\<close> at its call.
\<close>

definition mirror :: "state \<Rightarrow> addr \<Rightarrow> zapCall \<Rightarrow> (state \<times> addr) option" where
  "mirror s l c =
     do {
       dup \<leftarrow> load (zapLoggers s) l;
       (s1, z) \<leftarrow> zap_derive s (zap dup) c;
       (s2, u) \<leftarrow> (if unsampled dup = zap dup then Some (s1, z)
                   else zap_derive s1 (unsampled dup) c);
       Some (new_ZapLogger s2 (dup\<lparr>zap := z, unsampled := u\<rparr>))
     }"

section \<open>Splitting and joining\<close>

declare strings_Split.simps [simp del]
declare confSearch.simps [simp del]
declare spec_ancestors.simps [simp del]

lemma Split_no_sep:
  "dropWhile (\<lambda>c. c \<noteq> sep) s = [] \<Longrightarrow> strings_Split s sep = [s]"
  by (subst strings_Split.simps) (simp only: list.case)

lemma Split_at_sep:
  "dropWhile (\<lambda>c. c \<noteq> sep) s = x # rest \<Longrightarrow>
   strings_Split s sep = takeWhile (\<lambda>c. c \<noteq> sep) s # strings_Split rest sep"
  by (subst strings_Split.simps) (simp only: list.case)

lemma Split_not_empty: "strings_Split s sep \<noteq> []"
  by (cases "dropWhile (\<lambda>c. c \<noteq> sep) s") (simp_all add: Split_no_sep Split_at_sep)

lemma Split_parts_free: "p \<in> set (strings_Split s sep) \<Longrightarrow> sep \<notin> set p"
proof (induction s sep arbitrary: p rule: strings_Split.induct)
  case (1 s sep)
  show ?case
  proof (cases "dropWhile (\<lambda>c. c \<noteq> sep) s")
    case Nil
    with "1.prems" have "p = s" by (simp add: Split_no_sep)
    with Nil show ?thesis by (auto simp: dropWhile_eq_Nil_conv)
  next
    case (Cons x rest)
    with "1.prems" have "p = takeWhile (\<lambda>c. c \<noteq> sep) s \<or> p \<in> set (strings_Split rest sep)"
      by (simp add: Split_at_sep)
    then show ?thesis
    proof
      assume "p = takeWhile (\<lambda>c. c \<noteq> sep) s"
      then show ?thesis by (auto dest: set_takeWhileD)
    next
      assume "p \<in> set (strings_Split rest sep)"
      with "1.IH" Cons show ?thesis by blast
    qed
  qed
qed

lemma Join_Split: "strings_Join (strings_Split s sep) sep = s"
proof (induction s sep rule: strings_Split.induct)
  case (1 s sep)
  show ?case
  proof (cases "dropWhile (\<lambda>c. c \<noteq> sep) s")
    case Nil
    then show ?thesis by (simp add: Split_no_sep)
  next
    case (Cons x rest)
    then have x: "x = sep"
      using hd_dropWhile [of "\<lambda>c. c \<noteq> sep" s] by auto
    obtain y ys where ys: "strings_Split rest sep = y # ys"
      using Split_not_empty [of rest sep] by (cases "strings_Split rest sep") auto
    have "s = takeWhile (\<lambda>c. c \<noteq> sep) s @ dropWhile (\<lambda>c. c \<noteq> sep) s" by simp
    with Cons x have s: "s = takeWhile (\<lambda>c. c \<noteq> sep) s @ sep # rest" by simp
    have "strings_Join (strings_Split s sep) sep =
          takeWhile (\<lambda>c. c \<noteq> sep) s @ sep # strings_Join (strings_Split rest sep) sep"
      using Cons ys by (simp add: Split_at_sep)
    also have "\<dots> = takeWhile (\<lambda>c. c \<noteq> sep) s @ sep # rest"
      using "1.IH" Cons by simp
    finally show ?thesis using s by simp
  qed
qed

lemma Join_snoc:
  "parts \<noteq> [] \<Longrightarrow> strings_Join (parts @ [x]) sep = strings_Join parts sep @ sep # x"
  by (induction parts sep rule: strings_Join.induct) auto

lemma strip_Join_snoc:
  assumes "parts \<noteq> []" and "CHR ''.'' \<notin> set x"
  shows "spec_stripLastSegment (strings_Join (parts @ [x]) (CHR ''.'')) =
         Some (strings_Join parts (CHR ''.''))"
proof -
  let ?j = "strings_Join parts (CHR ''.'')"
  have "rev (?j @ CHR ''.'' # x) = rev x @ CHR ''.'' # rev ?j" by simp
  moreover have
    "dropWhile (\<lambda>c. c \<noteq> CHR ''.'') (rev x @ CHR ''.'' # rev ?j) = CHR ''.'' # rev ?j"
    using assms(2) by (simp add: dropWhile_append)
  ultimately show ?thesis
    using assms(1) by (simp add: Join_snoc spec_stripLastSegment_def)
qed

lemma confSearch_Nil: "confSearch cl [] = None"
  by (subst confSearch.simps) simp

lemma confSearch_snoc:
  "confSearch cl (xs @ [x]) =
     (case cl (strings_Join (xs @ [x]) (CHR ''.'')) of
        Some compLevel \<Rightarrow> Some compLevel
      | None \<Rightarrow> confSearch cl xs)"
  by (subst confSearch.simps) (simp split: option.splits)

lemma spec_configured_unfold:
  "spec_configured cl p =
     (case cl p of
        Some compLevel \<Rightarrow> Some compLevel
      | None \<Rightarrow>
          (case spec_stripLastSegment p of
             None \<Rightarrow> None
           | Some q \<Rightarrow> spec_configured cl q))"
  by (simp add: spec_configured_def spec_ancestors.simps [of p] split: option.splits)

text \<open>
  The loop over the parts of a path finds what the specification's search over the
  path's ancestors finds.
\<close>

lemma confSearch_parts:
  assumes "parts \<noteq> []" and "\<forall>p \<in> set parts. CHR ''.'' \<notin> set p"
  shows "confSearch cl parts = spec_configured cl (strings_Join parts (CHR ''.''))"
  using assms
proof (induction parts rule: rev_induct)
  case Nil
  then show ?case by simp
next
  case (snoc x xs)
  show ?case
  proof (cases "xs = []")
    case True
    from snoc.prems have "spec_stripLastSegment x = None"
      by (simp add: spec_stripLastSegment_def)
    with True show ?thesis
      by (subst spec_configured_unfold)
         (simp add: confSearch_snoc [of cl "[]", simplified] confSearch_Nil
            split: option.splits)
  next
    case False
    with snoc.prems have st:
      "spec_stripLastSegment (strings_Join (xs @ [x]) (CHR ''.'')) =
       Some (strings_Join xs (CHR ''.''))"
      by (simp add: strip_Join_snoc)
    from snoc False have ih:
      "confSearch cl xs = spec_configured cl (strings_Join xs (CHR ''.''))"
      by simp
    show ?thesis
      by (subst spec_configured_unfold) (simp add: confSearch_snoc st ih split: option.splits)
  qed
qed

lemma confSearch_Split:
  "confSearch cl (strings_Split p (CHR ''.'')) = spec_configured cl p"
  using confSearch_parts [of "strings_Split p (CHR ''.'')" cl]
  by (simp add: Split_not_empty Split_parts_free Join_Split)

section \<open>Resolution of a component's level\<close>

text \<open>
  C1. On the first call for a component path (the path has no cached cell yet),
  \<open>setEffectiveLevel\<close> returns a cell that reads the severity parsed from the most
  specific configured entry among the path and its dot-stripped ancestors, and the
  registry's current level when no such entry is configured.
\<close>

theorem setEffectiveLevel_first_call:
  assumes "load (sharedConfigs s) c = Some sc"
    and "map_of (componentLevels sc) cname = None"
    and "AtomicLevel_Level s (sharedConfig.level sc) = Some dflt"
  shows "\<exists>s' cell. setEffectiveLevel um s c cname = Some (s', cell) \<and>
           AtomicLevel_Level s' cell = Some (spec_resolveLevel um (config sc) dflt cname)"
proof (cases "spec_configured (ComponentLevels (config sc)) cname")
  case None
  with assms show ?thesis
    by (simp add: setEffectiveLevel_def confSearch_Split spec_resolveLevel_def
        NewAtomicLevelAt_def AtomicLevel_Level_def load_def)
next
  case (Some lvl)
  with assms show ?thesis
    by (simp add: setEffectiveLevel_def confSearch_Split spec_resolveLevel_def
        NewAtomicLevelAt_def AtomicLevel_Level_def AtomicLevel_SetLevel_def load_def)
qed

lemma ancestors_abc: "spec_ancestors ''a.b.c'' = [''a.b.c'', ''a.b'', ''a'']"
  by (simp add: spec_ancestors.simps spec_stripLastSegment_def)

lemma ancestors_xy: "spec_ancestors ''x.y'' = [''x.y'', ''x'']"
  by (simp add: spec_ancestors.simps spec_stripLastSegment_def)

text \<open>
  With \<open>"a.b"\<close> configured as \<open>"warn"\<close> and the default \<open>"debug"\<close>, the cell of \<open>"a.b.c"\<close>
  reads Warn and the cell of \<open>"x.y"\<close> reads Debug.
\<close>

theorem setEffectiveLevel_first_call_witness:
  "(\<exists>s' cell. setEffectiveLevel zapcore_unmarshalText
       (fst (newSharedConfig zapcore_unmarshalText empty_state Config_ab_warn)) 0 ''a.b.c''
         = Some (s', cell) \<and>
       AtomicLevel_Level s' cell = Some WarnLevel) \<and>
   (\<exists>s' cell. setEffectiveLevel zapcore_unmarshalText
       (fst (newSharedConfig zapcore_unmarshalText empty_state Config_ab_warn)) 0 ''x.y''
         = Some (s', cell) \<and>
       AtomicLevel_Level s' cell = Some DebugLevel)"
proof -
  let ?s = "fst (newSharedConfig zapcore_unmarshalText empty_state Config_ab_warn)"
  let ?sc = "\<lparr>sharedConfig.level = 0, componentLevels = [], config = Config_ab_warn\<rparr>"
  have ld: "load (sharedConfigs ?s) 0 = Some ?sc"
    by (simp add: newSharedConfig_def NewAtomicLevelAt_def empty_state_def load_def)
  have m: "map_of (componentLevels ?sc) ''a.b.c'' = None" by simp
  have m': "map_of (componentLevels ?sc) ''x.y'' = None" by simp
  have lv: "AtomicLevel_Level ?s (sharedConfig.level ?sc) = Some DebugLevel"
    by (simp add: newSharedConfig_def NewAtomicLevelAt_def empty_state_def load_def
        AtomicLevel_Level_def Config_ab_warn_def ParseZapLevel_def zapcore_unmarshalText_def)
  have r1: "spec_resolveLevel zapcore_unmarshalText Config_ab_warn DebugLevel ''a.b.c''
              = WarnLevel"
    by (simp add: spec_resolveLevel_def spec_configured_def ancestors_abc Config_ab_warn_def
        ParseZapLevel_def zapcore_unmarshalText_def)
  have r2: "spec_resolveLevel zapcore_unmarshalText Config_ab_warn DebugLevel ''x.y''
              = DebugLevel"
    by (simp add: spec_resolveLevel_def spec_configured_def ancestors_xy Config_ab_warn_def)
  show ?thesis
    using setEffectiveLevel_first_call [OF ld m lv, where um = zapcore_unmarshalText]
      setEffectiveLevel_first_call [OF ld m' lv, where um = zapcore_unmarshalText]
    by (simp add: r1 r2)
qed

section \<open>Reloading the configuration\<close>

lemma updateLevels_resolves:
  assumes "lv < length (atomicLevels s)"
    and "distinct (map snd al)"
    and "\<forall>a \<in> snd ` set al. a < length (atomicLevels s) \<and> a \<noteq> lv"
  shows "\<exists>s'. updateLevels um s lv conf al = Some s' \<and>
           length (atomicLevels s') = length (atomicLevels s) \<and>
           (\<forall>(cname, cell) \<in> set al.
              atomicLevels s' ! cell = spec_resolveLevel um conf (atomicLevels s ! lv) cname) \<and>
           (\<forall>a. a \<notin> snd ` set al \<longrightarrow> atomicLevels s' ! a = atomicLevels s ! a) \<and>
           sharedConfigs s' = sharedConfigs s \<and> sugared s' = sugared s \<and>
           zapLoggers s' = zapLoggers s \<and> written s' = written s"
  using assms
proof (induction al arbitrary: s)
  case Nil
  then show ?case by simp
next
  case (Cons entry rest)
  obtain cname cell where entry: "entry = (cname, cell)" by (cases entry)
  define v where "v = spec_resolveLevel um conf (atomicLevels s ! lv) cname"
  define s1 where "s1 = s\<lparr>atomicLevels := (atomicLevels s)[cell := v]\<rparr>"
  from Cons.prems entry have cell: "cell < length (atomicLevels s)" "cell \<noteq> lv"
    "cell \<notin> snd ` set rest"
    by auto
  have step: "updateLevels um s lv conf ((cname, cell) # rest) = updateLevels um s1 lv conf rest"
    using Cons.prems(1) cell(1)
    by (simp add: AtomicLevel_Level_def load_def AtomicLevel_SetLevel_def
        confSearch_Split spec_resolveLevel_def s1_def v_def split: option.splits)
  have p1: "lv < length (atomicLevels s1)" using Cons.prems(1) by (simp add: s1_def)
  have p2: "distinct (map snd rest)" using Cons.prems(2) by simp
  have p3: "\<forall>a \<in> snd ` set rest. a < length (atomicLevels s1) \<and> a \<noteq> lv"
    using Cons.prems(3) by (simp add: s1_def)
  from Cons.IH [OF p1 p2 p3] obtain s' where s':
    "updateLevels um s1 lv conf rest = Some s'"
    "length (atomicLevels s') = length (atomicLevels s1)"
    "\<forall>(cname, cell) \<in> set rest.
        atomicLevels s' ! cell = spec_resolveLevel um conf (atomicLevels s1 ! lv) cname"
    "\<forall>a. a \<notin> snd ` set rest \<longrightarrow> atomicLevels s' ! a = atomicLevels s1 ! a"
    "sharedConfigs s' = sharedConfigs s1" "sugared s' = sugared s1"
    "zapLoggers s' = zapLoggers s1" "written s' = written s1"
    by blast
  have lv1: "atomicLevels s1 ! lv = atomicLevels s ! lv"
    using cell(2) by (simp add: s1_def)
  have here: "atomicLevels s' ! cell = v"
    using s'(4) cell(1,3) by (simp add: s1_def)
  have frame: "\<forall>a. a \<notin> snd ` set ((cname, cell) # rest) \<longrightarrow>
                  atomicLevels s' ! a = atomicLevels s ! a"
    using s'(4) by (auto simp: s1_def)
  have all: "\<forall>(n, c) \<in> set ((cname, cell) # rest).
               atomicLevels s' ! c = spec_resolveLevel um conf (atomicLevels s ! lv) n"
    using s'(3) here lv1 by (auto simp: v_def)
  have len: "length (atomicLevels s') = length (atomicLevels s)"
    using s'(2) by (simp add: s1_def)
  have rest: "sharedConfigs s' = sharedConfigs s" "sugared s' = sugared s"
    "zapLoggers s' = zapLoggers s" "written s' = written s"
    using s'(5-8) by (simp_all add: s1_def)
  show ?case
    unfolding entry step
    using s'(1) len all frame rest by blast
qed

text \<open>
  C2. After \<open>onConfigUpdate\<close> the registry's level cell reads the parsed new default, and
  every cached component cell reads the severity parsed from the most specific
  configured ancestor of its path in the new configuration, or the new default when none
  is configured.
\<close>

theorem onConfigUpdate_recomputes:
  assumes "load (sharedConfigs s) cfg = Some sc" and "registry_ok s sc"
  shows "\<exists>s'. onConfigUpdate um s cfg conf = Some s' \<and>
           AtomicLevel_Level s' (sharedConfig.level sc) = Some (ParseZapLevel um (Level conf)) \<and>
           (\<forall>(cname, cell) \<in> set (componentLevels sc).
              AtomicLevel_Level s' cell =
                Some (spec_resolveLevel um conf (ParseZapLevel um (Level conf)) cname)) \<and>
           load (sharedConfigs s') cfg = Some (sc\<lparr>config := conf\<rparr>)"
proof -
  let ?lv = "sharedConfig.level sc"
  let ?d = "ParseZapLevel um (Level conf)"
  define s2 where "s2 = s\<lparr>atomicLevels := (atomicLevels s)[?lv := ?d],
                          sharedConfigs := (sharedConfigs s)[cfg := sc\<lparr>config := conf\<rparr>]\<rparr>"
  from assms(2) have ok: "?lv < length (atomicLevels s)"
    "distinct (map snd (componentLevels sc))"
    "\<forall>a \<in> snd ` set (componentLevels sc). a < length (atomicLevels s) \<and> a \<noteq> ?lv"
    by (simp_all add: registry_ok_def)
  from assms(1) have cfg: "cfg < length (sharedConfigs s)" "sharedConfigs s ! cfg = sc"
    by (simp_all add: load_def split: if_splits)
  have run: "onConfigUpdate um s cfg conf = updateLevels um s2 ?lv conf (componentLevels sc)"
    using assms(1) ok(1) by (simp add: onConfigUpdate_def AtomicLevel_SetLevel_def s2_def)
  have p1: "?lv < length (atomicLevels s2)" using ok(1) by (simp add: s2_def)
  have p3: "\<forall>a \<in> snd ` set (componentLevels sc). a < length (atomicLevels s2) \<and> a \<noteq> ?lv"
    using ok(3) by (simp add: s2_def)
  from updateLevels_resolves [OF p1 ok(2) p3, of um conf] obtain s' where s':
    "updateLevels um s2 ?lv conf (componentLevels sc) = Some s'"
    "length (atomicLevels s') = length (atomicLevels s2)"
    "\<forall>(cname, cell) \<in> set (componentLevels sc).
        atomicLevels s' ! cell = spec_resolveLevel um conf (atomicLevels s2 ! ?lv) cname"
    "\<forall>a. a \<notin> snd ` set (componentLevels sc) \<longrightarrow> atomicLevels s' ! a = atomicLevels s2 ! a"
    "sharedConfigs s' = sharedConfigs s2"
    by blast
  have d: "atomicLevels s2 ! ?lv = ?d" using ok(1) by (simp add: s2_def)
  have notin: "?lv \<notin> snd ` set (componentLevels sc)" using ok(3) by blast
  have a: "AtomicLevel_Level s' ?lv = Some ?d"
    using s'(2,4) notin p1 d by (simp add: AtomicLevel_Level_def load_def)
  have b: "\<forall>(cname, cell) \<in> set (componentLevels sc).
              AtomicLevel_Level s' cell = Some (spec_resolveLevel um conf ?d cname)"
  proof (clarify)
    fix cname cell assume m: "(cname, cell) \<in> set (componentLevels sc)"
    then have "cell \<in> snd ` set (componentLevels sc)" by force
    with p3 s'(2) have "cell < length (atomicLevels s')" by auto
    moreover from s'(3) m d have "atomicLevels s' ! cell = spec_resolveLevel um conf ?d cname"
      by auto
    ultimately show "AtomicLevel_Level s' cell = Some (spec_resolveLevel um conf ?d cname)"
      by (simp add: AtomicLevel_Level_def load_def)
  qed
  have c: "load (sharedConfigs s') cfg = Some (sc\<lparr>config := conf\<rparr>)"
    using s'(5) cfg by (simp add: s2_def load_def)
  show ?thesis using run s'(1) a b c by simp
qed

text \<open>The registries the logger builds satisfy the invariant.\<close>

lemma update_absent: "map_of al k = None \<Longrightarrow> AList.update k v al = al @ [(k, v)]"
  by (induction al) (auto split: if_splits)

lemma newSharedConfig_ok:
  assumes "newSharedConfig um s conf = (s', c)"
  shows "\<exists>sc. load (sharedConfigs s') c = Some sc \<and> registry_ok s' sc \<and>
           componentLevels sc = [] \<and> config sc = conf \<and>
           AtomicLevel_Level s' (sharedConfig.level sc) = Some (ParseZapLevel um (Level conf))"
  using assms
  by (auto simp: newSharedConfig_def NewAtomicLevelAt_def load_def registry_ok_def
      AtomicLevel_Level_def)

lemma setEffectiveLevel_ok:
  assumes "load (sharedConfigs s) c = Some sc" and "registry_ok s sc"
    and "setEffectiveLevel um s c cname = Some (s', cell)"
  shows "\<exists>sc'. load (sharedConfigs s') c = Some sc' \<and> registry_ok s' sc' \<and>
           map_of (componentLevels sc') cname = Some cell \<and>
           sharedConfig.level sc' = sharedConfig.level sc \<and> config sc' = config sc"
proof (cases "map_of (componentLevels sc) cname")
  case (Some a)
  with assms show ?thesis by (simp add: setEffectiveLevel_def)
next
  case None
  from assms(1) have c: "c < length (sharedConfigs s)" "sharedConfigs s ! c = sc"
    by (simp_all add: load_def split: if_splits)
  from assms(2) have ok: "sharedConfig.level sc < length (atomicLevels s)"
    "distinct (map fst (componentLevels sc))"
    "distinct (map snd (componentLevels sc))"
    "\<forall>a \<in> snd ` set (componentLevels sc).
        a < length (atomicLevels s) \<and> a \<noteq> sharedConfig.level sc"
    by (simp_all add: registry_ok_def)
  from None have fresh_key: "cname \<notin> fst ` set (componentLevels sc)"
    by (simp add: map_of_eq_None_iff)
  from ok(4) have fresh_cell: "length (atomicLevels s) \<notin> snd ` set (componentLevels sc)"
    by auto
  let ?sc' = "sc\<lparr>componentLevels := componentLevels sc @ [(cname, length (atomicLevels s))]\<rparr>"
  have cell: "cell = length (atomicLevels s)"
    and shared: "sharedConfigs s' = (sharedConfigs s)[c := ?sc']"
    and len: "length (atomicLevels s') = Suc (length (atomicLevels s))"
    using assms(1,3) None ok(1)
    by (auto simp: setEffectiveLevel_def update_absent NewAtomicLevelAt_def
        AtomicLevel_Level_def AtomicLevel_SetLevel_def load_def
        split: option.splits if_splits)
  have "load (sharedConfigs s') c = Some ?sc'" using shared c by (simp add: load_def)
  moreover have "registry_ok s' ?sc'"
    using ok fresh_key fresh_cell len by (auto simp: registry_ok_def)
  moreover have "map_of (componentLevels ?sc') cname = Some cell"
    using None cell by (simp add: map_add_Some_iff)
  ultimately show ?thesis by auto
qed

lemma ancestors_svc_a: "spec_ancestors ''svc.a'' = [''svc.a'', ''svc'']"
  by (simp add: spec_ancestors.simps spec_stripLastSegment_def)

text \<open>
  The cell of \<open>"svc.a"\<close> is resolved to Info under a configuration with no component
  levels; after a reload that maps \<open>"svc"\<close> to \<open>"error"\<close> the same cell reads Error.
\<close>

theorem onConfigUpdate_recomputes_witness:
  "setEffectiveLevel zapcore_unmarshalText
     (fst (newSharedConfig zapcore_unmarshalText empty_state Config_info)) 0 ''svc.a''
     = Some (state_svc_a, 1) \<and>
   AtomicLevel_Level state_svc_a 1 = Some InfoLevel \<and>
   (\<exists>s'. onConfigUpdate zapcore_unmarshalText state_svc_a 0 Config_svc_error = Some s' \<and>
      AtomicLevel_Level s' 0 = Some InfoLevel \<and>
      AtomicLevel_Level s' 1 = Some ErrorLevel)"
proof -
  let ?sc = "\<lparr>sharedConfig.level = 0, componentLevels = [(''svc.a'', 1)], config = Config_info\<rparr>"
  have split: "strings_Split ''svc.a'' (CHR ''.'') = [''svc'', ''a'']"
    by (simp add: Split_at_sep Split_no_sep)
  have first: "setEffectiveLevel zapcore_unmarshalText
     (fst (newSharedConfig zapcore_unmarshalText empty_state Config_info)) 0 ''svc.a''
     = Some (state_svc_a, 1)"
    by (simp add: setEffectiveLevel_def newSharedConfig_def NewAtomicLevelAt_def
        empty_state_def load_def AtomicLevel_Level_def Config_info_def ParseZapLevel_def
        zapcore_unmarshalText_def InfoLevel_def state_svc_a_def confSearch_Split
        spec_configured_def ancestors_svc_a)
  have info: "AtomicLevel_Level state_svc_a 1 = Some InfoLevel"
    by (simp add: state_svc_a_def AtomicLevel_Level_def load_def InfoLevel_def)
  have ld: "load (sharedConfigs state_svc_a) 0 = Some ?sc"
    by (simp add: state_svc_a_def load_def)
  have ok: "registry_ok state_svc_a ?sc"
    by (simp add: registry_ok_def state_svc_a_def)
  have d: "ParseZapLevel zapcore_unmarshalText (Level Config_svc_error) = InfoLevel"
    by (simp add: Config_svc_error_def ParseZapLevel_def zapcore_unmarshalText_def)
  have r: "spec_resolveLevel zapcore_unmarshalText Config_svc_error InfoLevel ''svc.a'' = ErrorLevel"
    by (simp add: spec_resolveLevel_def spec_configured_def ancestors_svc_a
        Config_svc_error_def ParseZapLevel_def zapcore_unmarshalText_def)
  show ?thesis
    using onConfigUpdate_recomputes [OF ld ok, of zapcore_unmarshalText Config_svc_error] info
    by (auto simp: first d r)
qed

section \<open>Handles made by NewZapLogger\<close>

lemma NewZapLogger_main:
  "NewZapLogger zapcore_unmarshalText Build_ok empty_state Config_main = (state_main, Inr 0)"
  by (simp add: NewZapLogger_def newSharedConfig_def NewAtomicLevelAt_def zap_Sugar_def
      new_ZapLogger_def Build_ok_def empty_state_def Config_main_def state_main_def
      zc_console_def ParseZapLevel_def zapcore_unmarshalText_def Let_def)

lemma NewZapLogger_warn_sampled:
  "NewZapLogger zapcore_unmarshalText Build_ok empty_state Config_warn_sampled =
     (state_warn_sampled, Inr 0)"
  by (simp add: NewZapLogger_def newSharedConfig_def NewAtomicLevelAt_def zap_Sugar_def
      new_ZapLogger_def Build_ok_def empty_state_def Config_warn_sampled_def
      state_warn_sampled_def zc_json_def ParseZapLevel_def zapcore_unmarshalText_def Let_def)

lemma live_main: "live state_main 0"
  by (simp add: live_def state_main_def)

lemma live_warn_sampled: "live state_warn_sampled 0"
  by (simp add: live_def state_warn_sampled_def)

section \<open>Level gating and the error pair\<close>

text \<open>
  C3. A live handle whose level cell reads Warn: \<open>Debugw\<close> and \<open>Infow\<close> return the state
  as it was (no write is dispatched), and \<open>Warnw\<close> and \<open>Errorw\<close> each dispatch exactly one
  write, at their severity and with their message.
\<close>

theorem level_gating_at_Warn:
  assumes "live s l"
    and "AtomicLevel_Level s (ZapLogger.level (zapLoggers s ! l)) = Some WarnLevel"
  shows "Debugw s l msg1 kvs1 = Some s \<and>
         Infow s l msg2 kvs2 = Some s \<and>
         (\<exists>e. Warnw s l msg3 err3 kvs3 = Some (s\<lparr>written := written s @ [e]\<rparr>) \<and>
              e_level e = WarnLevel \<and> e_msg e = msg3) \<and>
         (\<exists>e. Errorw s l msg4 err4 kvs4 = Some (s\<lparr>written := written s @ [e]\<rparr>) \<and>
              e_level e = ErrorLevel \<and> e_msg e = msg4)"
proof -
  from assms(1) have l: "load (zapLoggers s) l = Some (zapLoggers s ! l)"
    and z: "load (sugared s) (zap (zapLoggers s ! l)) = Some (sugared s ! zap (zapLoggers s ! l))"
    by (simp_all add: live_def load_def)
  have en: "isEnabled s l lvl = Some (lvl \<ge> WarnLevel)" for lvl
    using l assms(2) by (simp add: isEnabled_def)
  have "Debugw s l msg1 kvs1 = Some s"
    by (simp add: Debugw_def en level_defs)
  moreover have "Infow s l msg2 kvs2 = Some s"
    by (simp add: Infow_def en level_defs)
  moreover have "\<exists>e. Warnw s l msg3 err3 kvs3 = Some (s\<lparr>written := written s @ [e]\<rparr>) \<and>
              e_level e = WarnLevel \<and> e_msg e = msg3"
    using l z by (simp add: Warnw_def en zap_log_def) (rule exI, rule conjI, rule refl, simp)
  moreover have "\<exists>e. Errorw s l msg4 err4 kvs4 = Some (s\<lparr>written := written s @ [e]\<rparr>) \<and>
              e_level e = ErrorLevel \<and> e_msg e = msg4"
    using l z by (simp add: Errorw_def en zap_log_def level_defs) (rule exI, rule conjI, rule refl, simp)
  ultimately show ?thesis by blast
qed

theorem level_gating_at_Warn_witness:
  "live state_warn_sampled 0 \<and>
   AtomicLevel_Level state_warn_sampled (ZapLogger.level (zapLoggers state_warn_sampled ! 0))
     = Some WarnLevel \<and>
   Debugw state_warn_sampled 0 ''d'' [] = Some state_warn_sampled \<and>
   Infow state_warn_sampled 0 ''i'' [] = Some state_warn_sampled \<and>
   map_option (\<lambda>s. length (written s)) (Warnw state_warn_sampled 0 ''w'' None []) = Some 1 \<and>
   map_option (\<lambda>s. length (written s)) (Errorw state_warn_sampled 0 ''e'' None []) = Some 1"
proof -
  have lv: "AtomicLevel_Level state_warn_sampled
              (ZapLogger.level (zapLoggers state_warn_sampled ! 0)) = Some WarnLevel"
    by (simp add: AtomicLevel_Level_def load_def state_warn_sampled_def)
  have w: "written state_warn_sampled = []" by (simp add: state_warn_sampled_def)
  show ?thesis
    using level_gating_at_Warn [OF live_warn_sampled lv,
        of "''d''" "[]" "''i''" "[]" "''w''" None "[]" "''e''" None "[]"]
    by (auto simp: live_warn_sampled lv w)
qed

text \<open>
  C8. When the level cell enables the call, \<open>Warnw\<close> and \<open>Errorw\<close> dispatch one write to
  the handle's active sink whose pairs are the caller's pairs followed by \<open>"error"\<close> and the
  error when the error is not nil, and the caller's pairs unchanged when it is nil.
\<close>

theorem Warnw_Errorw_error_pair:
  assumes "live s l"
    and "AtomicLevel_Level s (ZapLogger.level (zapLoggers s ! l)) = Some cur"
  shows "(cur \<le> WarnLevel \<longrightarrow>
            Warnw s l msg err kvs =
              Some (s\<lparr>written := written s @
                [\<lparr>e_sink = sugared s ! zap (zapLoggers s ! l), e_level = WarnLevel, e_msg = msg,
                  e_keysAndValues =
                    (case err of None \<Rightarrow> kvs
                     | Some e \<Rightarrow> kvs @ [StringV ''error'', ErrorV e])\<rparr>]\<rparr>)) \<and>
         (cur \<le> ErrorLevel \<longrightarrow>
            Errorw s l msg err kvs =
              Some (s\<lparr>written := written s @
                [\<lparr>e_sink = sugared s ! zap (zapLoggers s ! l), e_level = ErrorLevel, e_msg = msg,
                  e_keysAndValues =
                    (case err of None \<Rightarrow> kvs
                     | Some e \<Rightarrow> kvs @ [StringV ''error'', ErrorV e])\<rparr>]\<rparr>))"
proof -
  from assms(1) have l: "load (zapLoggers s) l = Some (zapLoggers s ! l)"
    and z: "load (sugared s) (zap (zapLoggers s ! l)) = Some (sugared s ! zap (zapLoggers s ! l))"
    by (simp_all add: live_def load_def)
  have en: "isEnabled s l lvl = Some (lvl \<ge> cur)" for lvl
    using l assms(2) by (simp add: isEnabled_def)
  show ?thesis
    using l z by (cases err) (simp_all add: Warnw_def Errorw_def en zap_log_def)
qed

theorem Warnw_Errorw_error_pair_witness:
  "live state_main 0 \<and>
   AtomicLevel_Level state_main (ZapLogger.level (zapLoggers state_main ! 0)) = Some DebugLevel \<and>
   DebugLevel \<le> WarnLevel \<and> DebugLevel \<le> ErrorLevel \<and>
   map_option (\<lambda>s. map e_keysAndValues (written s))
     (Warnw state_main 0 ''warn'' None [StringV ''k1'', StringV ''v1''])
     = Some [[StringV ''k1'', StringV ''v1'']] \<and>
   map_option (\<lambda>s. map e_keysAndValues (written s))
     (Errorw state_main 0 ''failed'' (Some ''EOF'') [StringV ''k1'', StringV ''v1''])
     = Some [[StringV ''k1'', StringV ''v1'', StringV ''error'', ErrorV ''EOF'']]"
proof -
  have lv: "AtomicLevel_Level state_main (ZapLogger.level (zapLoggers state_main ! 0))
              = Some DebugLevel"
    by (simp add: AtomicLevel_Level_def load_def state_main_def)
  have w: "written state_main = []" by (simp add: state_main_def)
  show ?thesis
    using Warnw_Errorw_error_pair [OF live_main lv,
        of "''warn''" None "[StringV ''k1'', StringV ''v1'']"]
      Warnw_Errorw_error_pair [OF live_main lv,
        of "''failed''" "Some ''EOF''" "[StringV ''k1'', StringV ''v1'']"]
    by (simp add: live_main lv w level_defs)
qed

section \<open>Derivation\<close>

lemma WithValues_mirror: "WithValues s l keysAndValues = mirror s l (With keysAndValues)"
  unfolding WithValues_def mirror_def zap_With_def ..

lemma WithName_mirror: "WithName s l name = mirror s l (Named name)"
  unfolding WithName_def mirror_def zap_Named_def ..

lemma WithCallDepth_mirror:
  "WithCallDepth s l depth = mirror s l (WithOptions (AddCallerSkip depth))"
  unfolding WithCallDepth_def mirror_def zap_WithOptions_def ..

text \<open>
  What a derivation does on a live handle: one new sink when the two sinks of the
  receiver are one pointer, two otherwise, and a new handle after the existing ones.
\<close>

lemma mirror_live:
  assumes "live s l"
  shows "mirror s l c =
     Some (s\<lparr>sugared := sugared s @
              (if unsampled (zapLoggers s ! l) = zap (zapLoggers s ! l)
               then [(sugared s ! zap (zapLoggers s ! l))
                       \<lparr>calls := calls (sugared s ! zap (zapLoggers s ! l)) @ [c]\<rparr>]
               else [(sugared s ! zap (zapLoggers s ! l))
                       \<lparr>calls := calls (sugared s ! zap (zapLoggers s ! l)) @ [c]\<rparr>,
                     (sugared s ! unsampled (zapLoggers s ! l))
                       \<lparr>calls := calls (sugared s ! unsampled (zapLoggers s ! l)) @ [c]\<rparr>]),
            zapLoggers := zapLoggers s @
              [(zapLoggers s ! l)
                 \<lparr>zap := length (sugared s),
                  unsampled :=
                    (if unsampled (zapLoggers s ! l) = zap (zapLoggers s ! l)
                     then length (sugared s) else Suc (length (sugared s)))\<rparr>]\<rparr>,
           length (zapLoggers s))"
  using assms
  by (simp add: mirror_def live_def load_def zap_derive_def zap_Sugar_def new_ZapLogger_def
      nth_append)

lemma mirror_result_live:
  assumes "live s l" and "mirror s l c = Some (s', l')"
  shows "live s' l'"
  using assms(1) assms(2) [unfolded mirror_live [OF assms(1)]]
  by (auto simp: live_def nth_append)

text \<open>
  C7. On a live handle whose sampled and unsampled sinks are the same pointer,
  \<open>WithValues\<close>, \<open>WithName\<close> and \<open>WithCallDepth\<close> return a live handle whose two sinks
  are again the same pointer.
\<close>

theorem derivation_keeps_alias:
  assumes "live s l"
    and "zap (zapLoggers s ! l) = unsampled (zapLoggers s ! l)"
  shows "(\<exists>s' l'. WithValues s l keysAndValues = Some (s', l') \<and> live s' l' \<and>
            zap (zapLoggers s' ! l') = unsampled (zapLoggers s' ! l')) \<and>
         (\<exists>s' l'. WithName s l name = Some (s', l') \<and> live s' l' \<and>
            zap (zapLoggers s' ! l') = unsampled (zapLoggers s' ! l')) \<and>
         (\<exists>s' l'. WithCallDepth s l depth = Some (s', l') \<and> live s' l' \<and>
            zap (zapLoggers s' ! l') = unsampled (zapLoggers s' ! l'))"
proof -
  have "\<exists>s' l'. mirror s l c = Some (s', l') \<and> live s' l' \<and>
          zap (zapLoggers s' ! l') = unsampled (zapLoggers s' ! l')" for c
  proof -
    obtain s' l' where m: "mirror s l c = Some (s', l')"
      using mirror_live [OF assms(1), of c] by blast
    have "live s' l'" using mirror_result_live [OF assms(1) m] .
    moreover have "zap (zapLoggers s' ! l') = unsampled (zapLoggers s' ! l')"
      using m assms(2) unfolding mirror_live [OF assms(1)] by auto
    ultimately show ?thesis using m by blast
  qed
  then show ?thesis
    by (simp add: WithValues_mirror WithName_mirror WithCallDepth_mirror)
qed

theorem derivation_keeps_alias_witness:
  "live state_main 0 \<and>
   zap (zapLoggers state_main ! 0) = unsampled (zapLoggers state_main ! 0) \<and>
   (\<exists>s' l'. WithValues state_main 0 [StringV ''remote'', BoolV True] = Some (s', l') \<and>
      live s' l' \<and> zap (zapLoggers s' ! l') = unsampled (zapLoggers s' ! l')) \<and>
   (\<exists>s' l'. WithName state_main 0 ''OpsLink'' = Some (s', l') \<and>
      live s' l' \<and> zap (zapLoggers s' ! l') = unsampled (zapLoggers s' ! l')) \<and>
   (\<exists>s' l'. WithCallDepth state_main 0 2 = Some (s', l') \<and>
      live s' l' \<and> zap (zapLoggers s' ! l') = unsampled (zapLoggers s' ! l'))"
proof -
  have a: "zap (zapLoggers state_main ! 0) = unsampled (zapLoggers state_main ! 0)"
    by (simp add: state_main_def)
  show ?thesis
    using derivation_keeps_alias [OF live_main a, of "[StringV ''remote'', BoolV True]"
        "''OpsLink''" 2] live_main a
    by simp
qed

text \<open>
  C4. For a live handle with \<open>SampleDuration \<noteq> 0\<close>, \<open>WithItemSampler\<close> followed by
  \<open>WithoutSampler\<close> returns a handle whose active sink is the receiver's unsampled sink,
  the same pointer, whose unsampled sink is that pointer too, and the sink it points to
  is as it was.
\<close>

theorem sampler_round_trip:
  assumes "live s l" and "SampleDuration (zapLoggers s ! l) \<noteq> 0"
  shows "\<exists>s1 l1 s2 l2.
           WithItemSampler s l = Some (s1, l1) \<and>
           WithoutSampler s1 l1 = Some (s2, l2) \<and>
           zap (zapLoggers s2 ! l2) = unsampled (zapLoggers s ! l) \<and>
           unsampled (zapLoggers s2 ! l2) = unsampled (zapLoggers s ! l) \<and>
           sugared s2 ! unsampled (zapLoggers s ! l) = sugared s ! unsampled (zapLoggers s ! l)"
proof -
  let ?z = "zapLoggers s ! l"
  let ?d = "(sugared s ! unsampled ?z)
              \<lparr>calls := calls (sugared s ! unsampled ?z) @
                 [WithOptions (WrapCore_NewSamplerWithOptions
                    (SampleDuration ?z) (SampleInitial ?z) (ZapLogger.SampleInterval ?z))]\<rparr>"
  let ?s1 = "s\<lparr>sugared := sugared s @ [?d],
               zapLoggers := zapLoggers s @ [?z\<lparr>zap := length (sugared s)\<rparr>]\<rparr>"
  let ?l1 = "length (zapLoggers s)"
  let ?s2 = "?s1\<lparr>zapLoggers := zapLoggers ?s1 @ [?z\<lparr>zap := unsampled ?z\<rparr>]\<rparr>"
  let ?l2 = "Suc (length (zapLoggers s))"
  from assms(1) have l: "l < length (zapLoggers s)" and u: "unsampled ?z < length (sugared s)"
    by (simp_all add: live_def)
  have first: "WithItemSampler s l = Some (?s1, ?l1)"
    using l u assms(2)
    by (simp add: WithItemSampler_def load_def zap_WithOptions_def zap_derive_def zap_Sugar_def new_ZapLogger_def)
  have fresh: "unsampled ?z \<noteq> length (sugared s)" using u by simp
  have second: "WithoutSampler ?s1 ?l1 = Some (?s2, ?l2)"
    using fresh by (simp add: WithoutSampler_def load_def new_ZapLogger_def)
  have "zap (zapLoggers ?s2 ! ?l2) = unsampled ?z"
    by (simp add: nth_append)
  moreover have "unsampled (zapLoggers ?s2 ! ?l2) = unsampled ?z"
    by (simp add: nth_append)
  moreover have "sugared ?s2 ! unsampled ?z = sugared s ! unsampled ?z"
    using u by (simp add: nth_append)
  ultimately show ?thesis using first second by blast
qed

theorem sampler_round_trip_witness:
  "live state_warn_sampled 0 \<and> SampleDuration (zapLoggers state_warn_sampled ! 0) \<noteq> 0 \<and>
   (\<exists>s1 l1 s2 l2.
      WithItemSampler state_warn_sampled 0 = Some (s1, l1) \<and>
      WithoutSampler s1 l1 = Some (s2, l2) \<and>
      zap (zapLoggers s2 ! l2) = 0 \<and> unsampled (zapLoggers s2 ! l2) = 0 \<and>
      sugared s2 ! 0 = \<lparr>built = zc_json, calls = []\<rparr>)"
proof -
  have d: "SampleDuration (zapLoggers state_warn_sampled ! 0) \<noteq> 0"
    by (simp add: state_warn_sampled_def Second_def)
  have u: "unsampled (zapLoggers state_warn_sampled ! 0) = 0"
    by (simp add: state_warn_sampled_def)
  have s: "sugared state_warn_sampled ! 0 = \<lparr>built = zc_json, calls = []\<rparr>"
    by (simp add: state_warn_sampled_def)
  show ?thesis
    using sampler_round_trip [OF live_warn_sampled d] live_warn_sampled d
    by (simp add: u s)
qed

lemma written_after_log_frame:
  assumes "live s l"
    and "zapLoggers s' = zapLoggers s @ zs"
    and "sugared s' = sugared s @ ds"
    and "atomicLevels s' = atomicLevels s"
    and "written s' = written s"
  shows "map_option written (Debugw s' l msg kvs) = map_option written (Debugw s l msg kvs)"
    and "map_option written (Infow s' l msg kvs) = map_option written (Infow s l msg kvs)"
    and "map_option written (Warnw s' l msg err kvs) = map_option written (Warnw s l msg err kvs)"
    and "map_option written (Errorw s' l msg err kvs) = map_option written (Errorw s l msg err kvs)"
proof -
  from assms(1) have l: "l < length (zapLoggers s)"
    and z: "zap (zapLoggers s ! l) < length (sugared s)"
    and a: "ZapLogger.level (zapLoggers s ! l) < length (atomicLevels s)"
    by (simp_all add: live_def)
  have ld: "load (zapLoggers s') l = Some (zapLoggers s ! l)"
    "load (zapLoggers s) l = Some (zapLoggers s ! l)"
    using l assms(2) by (simp_all add: load_def nth_append)
  have sk: "load (sugared s') (zap (zapLoggers s ! l)) = Some (sugared s ! zap (zapLoggers s ! l))"
    "load (sugared s) (zap (zapLoggers s ! l)) = Some (sugared s ! zap (zapLoggers s ! l))"
    using z assms(3) by (simp_all add: load_def nth_append)
  have en: "isEnabled s' l lvl = isEnabled s l lvl" for lvl
    using ld assms(4) by (simp add: isEnabled_def AtomicLevel_Level_def)
  have en': "isEnabled s l lvl = Some (lvl \<ge> atomicLevels s ! ZapLogger.level (zapLoggers s ! l))" for lvl
    using ld a by (simp add: isEnabled_def AtomicLevel_Level_def load_def)
  show "map_option written (Debugw s' l msg kvs) = map_option written (Debugw s l msg kvs)"
    using ld sk assms(5) by (simp add: Debugw_def en en' zap_log_def)
  show "map_option written (Infow s' l msg kvs) = map_option written (Infow s l msg kvs)"
    using ld sk assms(5) by (simp add: Infow_def en en' zap_log_def)
  show "map_option written (Warnw s' l msg err kvs) = map_option written (Warnw s l msg err kvs)"
    using ld sk assms(5) by (simp add: Warnw_def en en' zap_log_def)
  show "map_option written (Errorw s' l msg err kvs) = map_option written (Errorw s l msg err kvs)"
    using ld sk assms(5) by (simp add: Errorw_def en en' zap_log_def)
qed

text \<open>
  C6. \<open>WithValues\<close> on a live handle returns another handle and leaves the receiver as it
  was: its struct, the sinks it points to, the cells, the registries and the writes; and
  a log call on the receiver after the derivation dispatches what it dispatches before
  it, so without the attached values.
\<close>

theorem WithValues_leaves_receiver:
  assumes "live s l"
  shows "\<exists>s' l'. WithValues s l keysAndValues = Some (s', l') \<and> l' \<noteq> l \<and>
           load (zapLoggers s') l = load (zapLoggers s) l \<and>
           load (sugared s') (zap (zapLoggers s ! l)) = load (sugared s) (zap (zapLoggers s ! l)) \<and>
           load (sugared s') (unsampled (zapLoggers s ! l)) =
             load (sugared s) (unsampled (zapLoggers s ! l)) \<and>
           atomicLevels s' = atomicLevels s \<and> sharedConfigs s' = sharedConfigs s \<and>
           written s' = written s \<and>
           map_option written (Debugw s' l msg kvs) = map_option written (Debugw s l msg kvs) \<and>
           map_option written (Infow s' l msg kvs) = map_option written (Infow s l msg kvs) \<and>
           map_option written (Warnw s' l msg err kvs) =
             map_option written (Warnw s l msg err kvs) \<and>
           map_option written (Errorw s' l msg err kvs) =
             map_option written (Errorw s l msg err kvs)"
proof -
  obtain s' l' where m: "WithValues s l keysAndValues = Some (s', l')"
    using mirror_live [OF assms, of "With keysAndValues"] by (auto simp: WithValues_mirror)
  from assms have l: "l < length (zapLoggers s)"
    and z: "zap (zapLoggers s ! l) < length (sugared s)"
    and u: "unsampled (zapLoggers s ! l) < length (sugared s)"
    by (simp_all add: live_def)
  from m obtain zs ds where ext:
    "zapLoggers s' = zapLoggers s @ zs" "sugared s' = sugared s @ ds"
    "atomicLevels s' = atomicLevels s" "written s' = written s"
    "sharedConfigs s' = sharedConfigs s" "l' = length (zapLoggers s)"
    unfolding WithValues_mirror mirror_live [OF assms] by auto
  have "l' \<noteq> l" using ext(6) l by simp
  moreover have "load (zapLoggers s') l = load (zapLoggers s) l"
    using l ext(1) by (simp add: load_def nth_append)
  moreover have "load (sugared s') (zap (zapLoggers s ! l)) = load (sugared s) (zap (zapLoggers s ! l))"
    using z ext(2) by (simp add: load_def nth_append)
  moreover have "load (sugared s') (unsampled (zapLoggers s ! l)) =
             load (sugared s) (unsampled (zapLoggers s ! l))"
    using u ext(2) by (simp add: load_def nth_append)
  ultimately show ?thesis
    using m ext(3,4,5) written_after_log_frame [OF assms ext(1-4)]
    by simp
qed

theorem WithValues_leaves_receiver_witness:
  "live state_warn_sampled 0 \<and>
   (\<exists>s' l'. WithValues state_warn_sampled 0 [StringV ''pID'', StringV ''2''] = Some (s', l') \<and>
      l' \<noteq> 0 \<and>
      load (zapLoggers s') 0 = load (zapLoggers state_warn_sampled) 0 \<and>
      map_option written (Warnw s' 0 ''warn'' None []) =
        Some [\<lparr>e_sink = \<lparr>built = zc_json,
                  calls = [WithOptions (WrapCore_NewSamplerWithOptions Second 20 100)]\<rparr>,
                e_level = WarnLevel, e_msg = ''warn'', e_keysAndValues = []\<rparr>])"
proof -
  have w: "map_option written (Warnw state_warn_sampled 0 ''warn'' None []) =
        Some [\<lparr>e_sink = \<lparr>built = zc_json,
                  calls = [WithOptions (WrapCore_NewSamplerWithOptions Second 20 100)]\<rparr>,
                e_level = WarnLevel, e_msg = ''warn'', e_keysAndValues = []\<rparr>]"
    by (simp add: Warnw_def isEnabled_def AtomicLevel_Level_def load_def zap_log_def
        state_warn_sampled_def)
  show ?thesis
    using WithValues_leaves_receiver [OF live_warn_sampled,
        of "[StringV ''pID'', StringV ''2'']" "''warn''" "[]" None] live_warn_sampled
    by (auto simp: w)
qed

section \<open>Construction\<close>

lemma NewZapLogger_fails:
  assumes "Build (if JSON conf then zc_json else zc_console) = Some err"
  shows "NewZapLogger um Build s conf = (fst (newSharedConfig um s conf), Inl err)"
  using assms
  by (simp add: NewZapLogger_def newSharedConfig_def NewAtomicLevelAt_def
      zc_json_def zc_console_def Let_def split: if_splits)

lemma NewZapLogger_succeeds:
  assumes "Build (if JSON conf then zc_json else zc_console) = None"
  shows "\<exists>s1. NewZapLogger um Build s conf = (s1, Inr (length (zapLoggers s)))"
  using assms
  by (simp add: NewZapLogger_def newSharedConfig_def NewAtomicLevelAt_def zap_Sugar_def
      new_ZapLogger_def zc_json_def zc_console_def Let_def split: if_splits)

lemma NewZapLogger_live:
  assumes "NewZapLogger um Build s conf = (s1, Inr l)"
  shows "live s1 l" and "length (zapLoggers s) \<le> l"
  using assms
  by (auto simp: NewZapLogger_def newSharedConfig_def NewAtomicLevelAt_def zap_Sugar_def
      new_ZapLogger_def Let_def live_def nth_append split: option.splits if_splits)

text \<open>
  C10. When \<open>NewZapLogger\<close> returns a handle, the handle is live; with \<open>Sample\<close> set its
  active sink is the built logger wrapped in a sampler with a window of one second, the
  initial burst \<open>conf.ItemSampleInitial\<close> or 20 when that is 0, and the interval
  \<open>conf.SampleInterval\<close> or 100 when that is 0; with \<open>Sample\<close> unset its two sinks are the
  same pointer.
\<close>

theorem NewZapLogger_sampling:
  assumes "NewZapLogger um Build s conf = (s', Inr l)"
  shows "live s' l \<and>
         (if Sample conf
          then calls (sugared s' ! zap (zapLoggers s' ! l)) =
                 [WithOptions (WrapCore_NewSamplerWithOptions Second
                    (if ItemSampleInitial conf = 0 then 20 else ItemSampleInitial conf)
                    (if Config.SampleInterval conf = 0 then 100 else Config.SampleInterval conf))] \<and>
               calls (sugared s' ! unsampled (zapLoggers s' ! l)) = []
          else zap (zapLoggers s' ! l) = unsampled (zapLoggers s' ! l))"
  using assms
  by (auto simp: NewZapLogger_def newSharedConfig_def NewAtomicLevelAt_def zap_Sugar_def
      new_ZapLogger_def Let_def live_def nth_append split: option.splits if_splits)

theorem NewZapLogger_sampling_witness:
  "NewZapLogger zapcore_unmarshalText Build_ok empty_state Config_warn_sampled
     = (state_warn_sampled, Inr 0) \<and>
   Sample Config_warn_sampled \<and> ItemSampleInitial Config_warn_sampled = 0 \<and>
   Config.SampleInterval Config_warn_sampled = 0 \<and>
   calls (sugared state_warn_sampled ! zap (zapLoggers state_warn_sampled ! 0)) =
     [WithOptions (WrapCore_NewSamplerWithOptions Second 20 100)] \<and>
   NewZapLogger zapcore_unmarshalText Build_ok empty_state Config_main = (state_main, Inr 0) \<and>
   \<not> Sample Config_main \<and>
   zap (zapLoggers state_main ! 0) = unsampled (zapLoggers state_main ! 0)"
proof -
  have c: "Sample Config_warn_sampled" "ItemSampleInitial Config_warn_sampled = 0"
    "Config.SampleInterval Config_warn_sampled = 0" "\<not> Sample Config_main"
    by (simp_all add: Config_warn_sampled_def Config_main_def)
  show ?thesis
    using NewZapLogger_sampling [OF NewZapLogger_warn_sampled]
      NewZapLogger_sampling [OF NewZapLogger_main]
    by (simp add: NewZapLogger_warn_sampled NewZapLogger_main c)
qed

section \<open>The process-wide singletons\<close>

lemma extends_trans: "extends s s1 \<Longrightarrow> extends s1 s2 \<Longrightarrow> extends s s2"
  by (auto simp: extends_def)

lemma extends_live:
  assumes "extends s s'" and "live s l"
  shows "live s' l"
    and "zapLoggers s' ! l = zapLoggers s ! l"
    and "sugared s' ! zap (zapLoggers s ! l) = sugared s ! zap (zapLoggers s ! l)"
    and "sugared s' ! unsampled (zapLoggers s ! l) = sugared s ! unsampled (zapLoggers s ! l)"
  using assms by (auto simp: extends_def live_def nth_append)

lemma mirror_total:
  assumes "live s l"
  shows "\<exists>s' l'. mirror s l c = Some (s', l')"
  using mirror_live [OF assms, of c] by blast

lemma mirror_extends:
  assumes "live s l" and "mirror s l c = Some (s', l')"
  shows "extends s s'"
    and "live s' l'"
    and "l' = length (zapLoggers s)"
    and "sugared s' ! zap (zapLoggers s' ! l') =
           (sugared s ! zap (zapLoggers s ! l))
             \<lparr>calls := calls (sugared s ! zap (zapLoggers s ! l)) @ [c]\<rparr>"
    and "sugared s' ! unsampled (zapLoggers s' ! l') =
           (sugared s ! unsampled (zapLoggers s ! l))
             \<lparr>calls := calls (sugared s ! unsampled (zapLoggers s ! l)) @ [c]\<rparr>"
proof -
  note m = assms(2) [unfolded mirror_live [OF assms(1)]]
  show "extends s s'" using m by (auto simp: extends_def)
  show "live s' l'" using mirror_result_live [OF assms] .
  show "l' = length (zapLoggers s)" using m by auto
  show "sugared s' ! zap (zapLoggers s' ! l') =
           (sugared s ! zap (zapLoggers s ! l))
             \<lparr>calls := calls (sugared s ! zap (zapLoggers s ! l)) @ [c]\<rparr>"
    using m by (auto simp: nth_append)
  show "sugared s' ! unsampled (zapLoggers s' ! l') =
           (sugared s ! unsampled (zapLoggers s ! l))
             \<lparr>calls := calls (sugared s ! unsampled (zapLoggers s ! l)) @ [c]\<rparr>"
    using m by (auto simp: nth_append)
qed

text \<open>
  The chain \<open>l.WithCallDepth(k).WithName(name)\<close> on a live handle.
\<close>

lemma depth_then_name:
  assumes "live s l"
  shows "\<exists>s1 d1 s2 d.
           WithCallDepth s l k = Some (s1, d1) \<and> WithName s1 d1 name = Some (s2, d) \<and>
           extends s s2 \<and> live s2 d \<and> length (zapLoggers s) \<le> d \<and>
           sugared s2 ! zap (zapLoggers s2 ! d) =
             (sugared s ! zap (zapLoggers s ! l))
               \<lparr>calls := calls (sugared s ! zap (zapLoggers s ! l)) @
                  [WithOptions (AddCallerSkip k), Named name]\<rparr> \<and>
           sugared s2 ! unsampled (zapLoggers s2 ! d) =
             (sugared s ! unsampled (zapLoggers s ! l))
               \<lparr>calls := calls (sugared s ! unsampled (zapLoggers s ! l)) @
                  [WithOptions (AddCallerSkip k), Named name]\<rparr>"
proof -
  obtain s1 d1 where a: "mirror s l (WithOptions (AddCallerSkip k)) = Some (s1, d1)"
    using mirror_total [OF assms] by blast
  note a' = mirror_extends [OF assms a]
  obtain s2 d where b: "mirror s1 d1 (Named name) = Some (s2, d)"
    using mirror_total [OF a'(2)] by blast
  note b' = mirror_extends [OF a'(2) b]
  have "length (zapLoggers s) \<le> d"
    using a'(1) b'(3) by (auto simp: extends_def)
  then show ?thesis
    using a b a' b' extends_trans [OF a'(1) b'(1)]
    by (simp add: WithCallDepth_mirror WithName_mirror)
qed

lemma callerSkip_snoc:
  "callerSkip (d\<lparr>calls := calls d @ [WithOptions (AddCallerSkip k), Named name]\<rparr>) =
     callerSkip d + k"
  by (simp add: callerSkip_def)

lemma SetLogger_on_live:
  assumes "live s l"
  shows "\<exists>s' d p.
           SetLogger api (s, g) (ZapLoggerRef l) name =
             Some (s', g\<lparr>defaultLogger := ZapLoggerRef d, pkgLogger := ZapLoggerRef p\<rparr>) \<and>
           extends s s' \<and> live s' d \<and> live s' p \<and>
           length (zapLoggers s) \<le> d \<and> length (zapLoggers s) \<le> p \<and>
           sugared s' ! zap (zapLoggers s' ! d) =
             (sugared s ! zap (zapLoggers s ! l))
               \<lparr>calls := calls (sugared s ! zap (zapLoggers s ! l)) @
                  [WithOptions (AddCallerSkip 1), Named name]\<rparr> \<and>
           sugared s' ! zap (zapLoggers s' ! p) =
             (sugared s ! zap (zapLoggers s ! l))
               \<lparr>calls := calls (sugared s ! zap (zapLoggers s ! l)) @
                  [WithOptions (AddCallerSkip 2), Named name]\<rparr>"
proof -
  let ?k = "sugared s ! zap (zapLoggers s ! l)"
  obtain s1 d1 s2 d where first:
    "WithCallDepth s l 1 = Some (s1, d1)" "WithName s1 d1 name = Some (s2, d)"
    "extends s s2" "live s2 d"
    "sugared s2 ! zap (zapLoggers s2 ! d) =
       ?k\<lparr>calls := calls ?k @ [WithOptions (AddCallerSkip 1), Named name]\<rparr>"
    "length (zapLoggers s) \<le> d"
    using depth_then_name [OF assms, of 1 name] by blast
  note l2 = extends_live [OF first(3) assms]
  obtain s3 p2 s4 p where second:
    "WithCallDepth s2 l 2 = Some (s3, p2)" "WithName s3 p2 name = Some (s4, p)"
    "extends s2 s4" "live s4 p"
    "sugared s4 ! zap (zapLoggers s4 ! p) =
       (sugared s2 ! zap (zapLoggers s2 ! l))
         \<lparr>calls := calls (sugared s2 ! zap (zapLoggers s2 ! l)) @
            [WithOptions (AddCallerSkip 2), Named name]\<rparr>"
    "length (zapLoggers s2) \<le> p"
    using depth_then_name [OF l2(1), of 2 name] by blast
  note d4 = extends_live [OF second(3) first(4)]
  have run: "SetLogger api (s, g) (ZapLoggerRef l) name =
      Some (s4, g\<lparr>defaultLogger := ZapLoggerRef d, pkgLogger := ZapLoggerRef p\<rparr>)"
    using first(1,2) second(1,2)
    by (simp add: SetLogger_def Logger_WithCallDepth_def Logger_WithName_def)
  have dsink: "sugared s4 ! zap (zapLoggers s4 ! d) =
       ?k\<lparr>calls := calls ?k @ [WithOptions (AddCallerSkip 1), Named name]\<rparr>"
    using d4(2,3) first(5) by simp
  have psink: "sugared s4 ! zap (zapLoggers s4 ! p) =
       ?k\<lparr>calls := calls ?k @ [WithOptions (AddCallerSkip 2), Named name]\<rparr>"
    using second(5) l2(2,3) by simp
  have lp: "length (zapLoggers s) \<le> p"
    using second(6) first(3) by (auto simp: extends_def)
  show ?thesis
    by (rule exI [of _ s4], rule exI [of _ d], rule exI [of _ p])
       (simp add: run d4(1) second(4) dsink psink first(6) lp
          extends_trans [OF first(3) second(3)])
qed

lemma SetLogger_LogRLogger:
  "SetLogger api (s, g) (LogRLogger r) name =
     Some (s, g\<lparr>defaultLogger :=
                  LogRLogger (logr_WithName api
                    (toLogr api (logr_WithCallDepth api (toLogr api r) 1)) name),
                pkgLogger :=
                  LogRLogger (logr_WithName api
                    (toLogr api (logr_WithCallDepth api (toLogr api r) 2)) name)\<rparr>)"
  by (simp add: SetLogger_def Logger_WithCallDepth_def Logger_WithName_def)

text \<open>
  C5, as the code has it. \<open>SetLogger\<close> on a live handle replaces both singletons. The
  default handle's sink is the given handle's sink with \<open>AddCallerSkip 1\<close> and then
  \<open>Named name\<close>, the package handle's sink is the given handle's sink with
  \<open>AddCallerSkip 2\<close> and then \<open>Named name\<close>: the default handle skips one caller more
  than the given handle, and the package handle one more than the default.
\<close>

theorem SetLogger_depths:
  assumes "live s l"
  shows "\<exists>s' d p.
           SetLogger api (s, g) (ZapLoggerRef l) name =
             Some (s', g\<lparr>defaultLogger := ZapLoggerRef d, pkgLogger := ZapLoggerRef p\<rparr>) \<and>
           live s' d \<and> live s' p \<and>
           calls (sugared s' ! zap (zapLoggers s' ! d)) =
             calls (sugared s ! zap (zapLoggers s ! l)) @
               [WithOptions (AddCallerSkip 1), Named name] \<and>
           calls (sugared s' ! zap (zapLoggers s' ! p)) =
             calls (sugared s ! zap (zapLoggers s ! l)) @
               [WithOptions (AddCallerSkip 2), Named name] \<and>
           callerSkip (sugared s' ! zap (zapLoggers s' ! d)) =
             callerSkip (sugared s ! zap (zapLoggers s ! l)) + 1 \<and>
           callerSkip (sugared s' ! zap (zapLoggers s' ! p)) =
             callerSkip (sugared s ! zap (zapLoggers s ! l)) + 2 \<and>
           callerSkip (sugared s' ! zap (zapLoggers s' ! p)) =
             callerSkip (sugared s' ! zap (zapLoggers s' ! d)) + 1"
proof -
  obtain s' d p where r:
    "SetLogger api (s, g) (ZapLoggerRef l) name =
       Some (s', g\<lparr>defaultLogger := ZapLoggerRef d, pkgLogger := ZapLoggerRef p\<rparr>)"
    "live s' d" "live s' p"
    "sugared s' ! zap (zapLoggers s' ! d) =
       (sugared s ! zap (zapLoggers s ! l))
         \<lparr>calls := calls (sugared s ! zap (zapLoggers s ! l)) @
            [WithOptions (AddCallerSkip 1), Named name]\<rparr>"
    "sugared s' ! zap (zapLoggers s' ! p) =
       (sugared s ! zap (zapLoggers s ! l))
         \<lparr>calls := calls (sugared s ! zap (zapLoggers s ! l)) @
            [WithOptions (AddCallerSkip 2), Named name]\<rparr>"
    using SetLogger_on_live [OF assms, of api g name] by blast
  show ?thesis
    by (rule exI [of _ s'], rule exI [of _ d], rule exI [of _ p])
       (simp add: r callerSkip_snoc)
qed

theorem SetLogger_depths_witness:
  "live state_main 0 \<and>
   Logger_callerSkip state_main (ZapLoggerRef 0 :: unit Logger) = Some 0 \<and>
   installed_callerSkips logr_unit (state_main, initial_globals logr_unit) (ZapLoggerRef 0)
     ''OpsLink'' = Some (Some 1, Some 2)"
proof -
  have k: "callerSkip (sugared state_main ! zap (zapLoggers state_main ! 0)) = 0"
    by (simp add: state_main_def callerSkip_def)
  have k': "Logger_callerSkip state_main (ZapLoggerRef 0 :: unit Logger) = Some 0"
    by (simp add: Logger_callerSkip_def load_def state_main_def callerSkip_def)
  obtain s' d p where r:
    "SetLogger logr_unit (state_main, initial_globals logr_unit) (ZapLoggerRef 0) ''OpsLink'' =
       Some (s', (initial_globals logr_unit)
                   \<lparr>defaultLogger := ZapLoggerRef d, pkgLogger := ZapLoggerRef p\<rparr>)"
    "live s' d" "live s' p"
    "callerSkip (sugared s' ! zap (zapLoggers s' ! d)) = 1"
    "callerSkip (sugared s' ! zap (zapLoggers s' ! p)) = 2"
    using SetLogger_depths [OF live_main, of logr_unit "initial_globals logr_unit" "''OpsLink''"]
    by (auto simp: k)
  have "installed_callerSkips logr_unit (state_main, initial_globals logr_unit) (ZapLoggerRef 0)
     ''OpsLink'' = Some (Some 1, Some 2)"
    using r by (simp add: installed_callerSkips_def Logger_callerSkip_def load_def live_def)
  then show ?thesis using live_main k' by simp
qed

text \<open>
  C5, as the claim states it, fails: on the handle \<open>NewZapLogger\<close> makes of the
  configuration of \<open>cmd/main.go\<close>, whose sink skips 0 callers, the installed default
  handle skips 1 caller and the package handle 2, not 0 and 2.
\<close>

theorem SetLogger_default_depth_counterexample:
  "Logger_callerSkip state_main (ZapLoggerRef 0 :: unit Logger) = Some 0 \<and>
   installed_callerSkips logr_unit (state_main, initial_globals logr_unit) (ZapLoggerRef 0)
     ''OpsLink'' = Some (Some (0 + 1), Some (0 + 2)) \<and>
   installed_callerSkips logr_unit (state_main, initial_globals logr_unit) (ZapLoggerRef 0)
     ''OpsLink'' \<noteq> Some (Some (0 + 0), Some (0 + 2))"
  by (simp add: installed_callerSkips_def SetLogger_def Logger_WithCallDepth_def
      Logger_WithName_def WithCallDepth_mirror WithName_mirror mirror_def zap_derive_def
      zap_Sugar_def new_ZapLogger_def load_def state_main_def Logger_callerSkip_def
      callerSkip_def initial_globals_def logr_unit_def nth_append)

text \<open>
  C9. When \<open>Build\<close> fails, \<open>InitLogConfig\<close> returns (it does not panic) and the two
  singletons are as they were. When \<open>Build\<close> succeeds, \<open>InitLogConfig\<close> is \<open>SetLogger\<close> on
  the new handle, returns, and both singletons are replaced by live handles.
\<close>

theorem InitLogConfig_singletons:
  "(Build (if JSON conf then zc_json else zc_console) = Some err \<longrightarrow>
      (\<exists>s1. InitLogConfig um Build api (s, g) conf system = Some (s1, g))) \<and>
   (Build (if JSON conf then zc_json else zc_console) = None \<longrightarrow>
      (\<exists>s1 l s2 d p.
         NewZapLogger um Build s conf = (s1, Inr l) \<and>
         InitLogConfig um Build api (s, g) conf system =
           SetLogger api (s1, g) (ZapLoggerRef l) system \<and>
         InitLogConfig um Build api (s, g) conf system =
           Some (s2, g\<lparr>defaultLogger := ZapLoggerRef d, pkgLogger := ZapLoggerRef p\<rparr>) \<and>
         live s2 d \<and> live s2 p))"
proof (intro conjI impI)
  assume "Build (if JSON conf then zc_json else zc_console) = Some err"
  then have "NewZapLogger um Build s conf = (fst (newSharedConfig um s conf), Inl err)"
    by (rule NewZapLogger_fails)
  then show "\<exists>s1. InitLogConfig um Build api (s, g) conf system = Some (s1, g)"
    by (simp add: InitLogConfig_def)
next
  assume "Build (if JSON conf then zc_json else zc_console) = None"
  then obtain s1 l where n: "NewZapLogger um Build s conf = (s1, Inr l)"
    using NewZapLogger_succeeds by blast
  have i: "InitLogConfig um Build api (s, g) conf system =
             SetLogger api (s1, g) (ZapLoggerRef l) system"
    using n by (simp add: InitLogConfig_def)
  obtain s2 d p where r:
    "SetLogger api (s1, g) (ZapLoggerRef l) system =
       Some (s2, g\<lparr>defaultLogger := ZapLoggerRef d, pkgLogger := ZapLoggerRef p\<rparr>)"
    "live s2 d" "live s2 p"
    using SetLogger_on_live [OF NewZapLogger_live(1) [OF n], of api g system] by blast
  show "\<exists>s1 l s2 d p.
         NewZapLogger um Build s conf = (s1, Inr l) \<and>
         InitLogConfig um Build api (s, g) conf system =
           SetLogger api (s1, g) (ZapLoggerRef l) system \<and>
         InitLogConfig um Build api (s, g) conf system =
           Some (s2, g\<lparr>defaultLogger := ZapLoggerRef d, pkgLogger := ZapLoggerRef p\<rparr>) \<and>
         live s2 d \<and> live s2 p"
    using n i r by auto
qed

theorem InitLogConfig_singletons_witness:
  "Build_fails (if JSON Config_main then zc_json else zc_console) = Some ''no encoder registered'' \<and>
   map_option snd
     (InitLogConfig zapcore_unmarshalText Build_fails logr_unit
        (empty_state, initial_globals logr_unit) Config_main ''OpsLink'')
     = Some \<lparr>defaultLogger = LogRLogger (), pkgLogger = LogRLogger ()\<rparr> \<and>
   Build_ok (if JSON Config_main then zc_json else zc_console) = None \<and>
   map_option snd
     (InitLogConfig zapcore_unmarshalText Build_ok logr_unit
        (empty_state, initial_globals logr_unit) Config_main ''OpsLink'')
     = Some \<lparr>defaultLogger = ZapLoggerRef 2, pkgLogger = ZapLoggerRef 4\<rparr>"
proof -
  have f: "Build_fails (if JSON Config_main then zc_json else zc_console)
             = Some ''no encoder registered''"
    by (simp add: Build_fails_def)
  have k: "Build_ok (if JSON Config_main then zc_json else zc_console) = None"
    by (simp add: Build_ok_def)
  have g: "initial_globals logr_unit = \<lparr>defaultLogger = LogRLogger (), pkgLogger = LogRLogger ()\<rparr>"
    by (simp add: initial_globals_def logr_unit_def)
  have ok: "map_option snd
     (InitLogConfig zapcore_unmarshalText Build_ok logr_unit
        (empty_state, initial_globals logr_unit) Config_main ''OpsLink'')
     = Some \<lparr>defaultLogger = ZapLoggerRef 2, pkgLogger = ZapLoggerRef 4\<rparr>"
    by (simp add: InitLogConfig_def NewZapLogger_main SetLogger_def Logger_WithCallDepth_def
      Logger_WithName_def WithCallDepth_mirror WithName_mirror mirror_def zap_derive_def
      zap_Sugar_def new_ZapLogger_def load_def state_main_def g nth_append)
  have "\<exists>s1. InitLogConfig zapcore_unmarshalText Build_fails logr_unit
            (empty_state, initial_globals logr_unit) Config_main ''OpsLink''
          = Some (s1, initial_globals logr_unit)"
    using InitLogConfig_singletons [of Build_fails Config_main "''no encoder registered''"
        zapcore_unmarshalText logr_unit empty_state "initial_globals logr_unit" "''OpsLink''"] f
    by blast
  then have fl: "map_option snd
     (InitLogConfig zapcore_unmarshalText Build_fails logr_unit
        (empty_state, initial_globals logr_unit) Config_main ''OpsLink'')
     = Some \<lparr>defaultLogger = LogRLogger (), pkgLogger = LogRLogger ()\<rparr>"
    by (auto simp: g)
  show ?thesis
    using f fl k ok by (intro conjI)
qed

end
